theory Spec2Isabelle
  imports Complex_Main "HOL-Library.Word"
begin

unbundle bit_operations_syntax

section \<open>Artemis: a tick-by-tick mean-reversion backtester\<close>

text \<open>
  A shallow embedding of the C++ sources: \<open>LockFreeQueue.hpp\<close>, \<open>MarketDataReader\<close>,
  \<open>RollingStatistics\<close>, \<open>SignalGenerator\<close> and \<open>Backtester\<close>.

  Conventions of the embedding.
  \<^item> A class is a record of its data members; a member function takes the object and
    returns the updated object. The trailing underscore of the private members is
    dropped; a member whose name would clash gets a short class suffix
    (\<open>mask_q\<close>, \<open>entryTime_bt\<close>). The constructor of a class \<open>C\<close> is \<open>new_C\<close>, and
    \<open>MarketDataReader::next\<close> is \<open>next_tick\<close>.
  \<^item> An exception is a value \<open>Inl e\<close> of the sum type \<open>error + 'a\<close>.
  \<^item> \<open>double\<close> is modelled by \<open>real\<close>: the arithmetic is exact, there is no rounding,
    no infinity and no NaN. \<open>int64_t\<close> values read from the file are range-checked by
    \<open>std::stoll\<close> and carried as \<open>int\<close>; the difference of two timestamps is the
    \<open>int64_t\<close> subtraction \<open>sub_int64\<close>, which wraps around when the exact difference
    does not fit. The \<open>size_t\<close> capacity and indices of the queue are \<open>64 word\<close>, since the
    constructor's check relies on wrap-around. The sample counters of
    \<open>RollingStatistics\<close> and the tick counter of \<open>run\<close> are \<open>nat\<close>: they would need
    \<open>2 ^ 64\<close> steps to wrap.
  \<^item> Memory is not modelled: an allocation or a mapping that is attempted succeeds,
    except for the slot array of the queue, which the allocator may refuse, and
    for the mapping of an empty file.
\<close>

datatype error = InvalidArgument | OutOfRange | RuntimeError | BadAlloc

subsection \<open>LockFreeQueue.hpp\<close>

text \<open>
  The queue in a sequential reading: one call runs at a time. A slot holds
  \<open>None\<close> for \<open>nullptr\<close> and \<open>Some x\<close> for a pointer to \<open>x\<close>.
\<close>

record 'a LockFreeQueue =
  capacity :: "64 word"
  mask_q :: "64 word"
  buffer_q :: "'a option list"
  head :: "64 word"
  tail :: "64 word"

text \<open>
  The constructor. The member initialisers compute \<open>mask_ = capacity - 1\<close> (on
  \<open>size_t\<close>, so \<open>0 - 1\<close> wraps to the largest value) and then allocate the slots with
  \<open>new std::atomic<T*>[capacity]\<close>; only after that the body throws
  \<open>std::invalid_argument\<close> when \<open>(capacity & mask_) != 0\<close>, and otherwise stores
  \<open>nullptr\<close> in every slot. The allocation comes first: a capacity that the
  allocator refuses leaves the constructor with \<open>std::bad_alloc\<close> (or its subclass
  \<open>std::bad_array_new_length\<close>), \<open>BadAlloc\<close> here, whatever its bits are. How many
  slots the allocator grants depends on the platform and on the memory at hand; it
  is the parameter \<open>max_slots\<close>.
\<close>

definition new_LockFreeQueue :: "nat \<Rightarrow> 64 word \<Rightarrow> error + 'a LockFreeQueue" where
  "new_LockFreeQueue max_slots cap =
     (let m = cap - 1 in
      if max_slots < unat cap then Inl BadAlloc
      else if cap AND m \<noteq> 0 then Inl InvalidArgument
      else Inr \<lparr>capacity = cap, mask_q = m, buffer_q = replicate (unat cap) None,
                head = 0, tail = 0\<rparr>)"

text \<open>
  \<open>tryPush\<close>. The flag \<open>cas_ok\<close> is the outcome of \<open>compare_exchange_weak\<close> when the
  slot holds \<open>nullptr\<close>: the weak form may fail spuriously. The result \<open>None\<close> stands
  for the undefined behaviour of indexing a slot outside the allocated array.
\<close>

definition tryPush :: "'a option \<Rightarrow> bool \<Rightarrow> 'a LockFreeQueue \<Rightarrow> (bool \<times> 'a LockFreeQueue) option" where
  "tryPush item cas_ok q =
     (if item = None then Some (False, q)
      else
        let currentTail = tail q;
            nextTail = (currentTail + 1) AND mask_q q
        in if nextTail = head q then Some (False, q)
           else if length (buffer_q q) \<le> unat currentTail then None
           else if buffer_q q ! unat currentTail = None \<and> cas_ok
                then Some (True, q\<lparr>buffer_q := (buffer_q q)[unat currentTail := item],
                                    tail := nextTail\<rparr>)
                else Some (False, q))"

text \<open>\<open>tryPop\<close>, by the single consumer; the strong compare-exchange cannot fail here.\<close>

definition tryPop :: "'a LockFreeQueue \<Rightarrow> ('a option \<times> 'a LockFreeQueue) option" where
  "tryPop q =
     (let currentHead = head q in
      if currentHead = tail q then Some (None, q)
      else if length (buffer_q q) \<le> unat currentHead then None
      else (case buffer_q q ! unat currentHead of
              None \<Rightarrow> Some (None, q)
            | Some v \<Rightarrow>
                Some (Some v, q\<lparr>buffer_q := (buffer_q q)[unat currentHead := None],
                               head := (currentHead + 1) AND mask_q q\<rparr>)))"


subsection \<open>MarketDataReader\<close>

record Tick =
  timestamp :: int
  bid :: real
  ask :: real
  volume :: int

definition mid :: "Tick \<Rightarrow> real" where
  "mid t = (bid t + ask t) / 2"

text \<open>
  The reader owns the mapped bytes \<open>data\<close> (\<open>None\<close> for \<open>nullptr\<close>) and the read
  cursor. The member \<open>size_\<close> is the length of the mapping, and \<open>0\<close> without one.
\<close>

record MarketDataReader =
  data :: "string option"
  position :: nat

definition size_r :: "MarketDataReader \<Rightarrow> nat" where
  "size_r r = (case data r of None \<Rightarrow> 0 | Some d \<Rightarrow> length d)"

definition isValid :: "MarketDataReader \<Rightarrow> bool" where
  "isValid r = (data r \<noteq> None \<and> size_r r > 0)"

text \<open>\<open>memchr\<close>: the offset of the first occurrence of a byte, if there is one.\<close>

definition memchr :: "string \<Rightarrow> char \<Rightarrow> nat option" where
  "memchr s c = (if c \<in> set s then Some (length (takeWhile (\<lambda>x. x \<noteq> c) s)) else None)"

definition LF :: char where
  "LF = CHR 0x0A"

definition CR :: char where
  "CR = CHR 0x0D"

text \<open>
  The constructor. Its argument is the content of the file, or \<open>None\<close> when the file
  cannot be opened or measured. Mapping a file of length zero fails, which leaves
  \<open>data_\<close> null. With a mapping, the cursor moves just past the first newline.
\<close>

definition skip_header :: "MarketDataReader \<Rightarrow> MarketDataReader" where
  "skip_header r =
     (case data r of
        None \<Rightarrow> r
      | Some d \<Rightarrow>
          if length d > 0 then
            (case memchr d LF of
               Some nl \<Rightarrow> r\<lparr>position := nl + 1\<rparr>
             | None \<Rightarrow> r)
          else r)"

definition new_MarketDataReader :: "string option \<Rightarrow> MarketDataReader" where
  "new_MarketDataReader file =
     skip_header
       \<lparr>data = (case file of None \<Rightarrow> None | Some d \<Rightarrow> if d = [] then None else Some d),
        position = 0\<rparr>"

definition reset :: "MarketDataReader \<Rightarrow> MarketDataReader" where
  "reset r = skip_header (r\<lparr>position := 0\<rparr>)"

definition approximateTickCount :: "MarketDataReader \<Rightarrow> nat" where
  "approximateTickCount r = (if data r = None \<or> size_r r = 0 then 0 else size_r r div 50)"

text \<open>
  \<open>std::getline(iss, token, ',')\<close> on the rest of the line: it fails when nothing is
  left, and otherwise takes the characters up to the next comma and drops that comma.
\<close>

definition getline :: "string \<Rightarrow> (string \<times> string) option" where
  "getline s =
     (if s = [] then None
      else let token = takeWhile (\<lambda>c. c \<noteq> CHR '','') s
           in Some (token, drop (length token + 1) s))"

text \<open>
  \<open>std::stoll\<close> in base ten, as \<open>strtoll\<close> reads: white space is skipped, then an
  optional sign, then the longest run of digits; what follows is ignored. No digit is
  \<open>std::invalid_argument\<close>, a value outside \<open>int64_t\<close> is \<open>std::out_of_range\<close>.
\<close>

definition isspace :: "char \<Rightarrow> bool" where
  "isspace c = (c = CHR '' '' \<or> (9 \<le> (of_char c :: nat) \<and> (of_char c :: nat) \<le> 13))"

definition isdigit :: "char \<Rightarrow> bool" where
  "isdigit c = (48 \<le> (of_char c :: nat) \<and> (of_char c :: nat) \<le> 57)"

definition decimal :: "string \<Rightarrow> nat" where
  "decimal ds = foldl (\<lambda>a c. 10 * a + (of_char c - 48)) 0 ds"

definition strip_sign :: "string \<Rightarrow> bool \<times> string" where
  "strip_sign s =
     (case s of
        [] \<Rightarrow> (False, s)
      | c # t \<Rightarrow> if c = CHR ''-'' then (True, t) else if c = CHR ''+'' then (False, t) else (False, s))"

definition stoll :: "string \<Rightarrow> error + int" where
  "stoll s =
     (let (neg, s1) = strip_sign (dropWhile isspace s);
          ds = takeWhile isdigit s1;
          v = (if neg then - int (decimal ds) else int (decimal ds))
      in if ds = [] then Inl InvalidArgument
         else if v < - (2 ^ 63) \<or> 2 ^ 63 - 1 < v then Inl OutOfRange
         else Inr v)"

text \<open>
  \<open>std::stod\<close> is a parameter of the reader: any function from the token to a value
  or an exception. \<open>stod_decimal\<close> is the instance used on concrete files: it reads
  plain decimal literals (sign, digits, fraction, exponent) exactly, which is what
  \<open>std::stod\<close> returns when the literal is representable. Hexadecimal literals,
  \<open>inf\<close>, \<open>nan\<close> and range errors are outside it.
\<close>

type_synonym stod_fn = "string \<Rightarrow> error + real"

definition exponent_part :: "string \<Rightarrow> int" where
  "exponent_part s =
     (case s of
        [] \<Rightarrow> 0
      | c # t \<Rightarrow>
          if c = CHR ''e'' \<or> c = CHR ''E'' then
            (let (neg, t1) = strip_sign t; ds = takeWhile isdigit t1
             in if ds = [] then 0 else if neg then - int (decimal ds) else int (decimal ds))
          else 0)"

definition stod_decimal :: stod_fn where
  "stod_decimal s =
     (let (neg, s1) = strip_sign (dropWhile isspace s);
          ip = takeWhile isdigit s1;
          s2 = drop (length ip) s1;
          has_point = (s2 \<noteq> [] \<and> hd s2 = CHR ''.'');
          fp = (if has_point then takeWhile isdigit (tl s2) else []);
          s3 = (if has_point then drop (length fp) (tl s2) else s2);
          e = exponent_part s3;
          m = real (decimal (ip @ fp)) / 10 ^ length fp;
          v = (if 0 \<le> e then m * 10 ^ nat e else m / 10 ^ nat (- e))
      in if ip = [] \<and> fp = [] then Inl InvalidArgument
         else Inr (if neg then - v else v))"

text \<open>
  \<open>parseLine\<close>. The result \<open>Inr None\<close> is the return value \<open>false\<close>, \<open>Inr (Some t)\<close>
  is \<open>true\<close> with the tick filled in, \<open>Inl e\<close> is an exception thrown by \<open>std::stoll\<close>
  or \<open>std::stod\<close>. (On \<open>false\<close> the source has overwritten some fields of the caller's
  tick; every caller reads the tick only after \<open>true\<close>.)
\<close>

definition parseLine :: "stod_fn \<Rightarrow> string \<Rightarrow> error + Tick option" where
  "parseLine stod str =
     (case getline str of None \<Rightarrow> Inr None | Some (token1, iss1) \<Rightarrow>
      (case stoll token1 of Inl e \<Rightarrow> Inl e | Inr ts \<Rightarrow>
      (case getline iss1 of None \<Rightarrow> Inr None | Some (token2, iss2) \<Rightarrow>
      (case stod token2 of Inl e \<Rightarrow> Inl e | Inr b \<Rightarrow>
      (case getline iss2 of None \<Rightarrow> Inr None | Some (token3, iss3) \<Rightarrow>
      (case stod token3 of Inl e \<Rightarrow> Inl e | Inr a \<Rightarrow>
      (case getline iss3 of None \<Rightarrow> Inr None | Some (token4, iss4) \<Rightarrow>
      (case stoll token4 of Inl e \<Rightarrow> Inl e | Inr v \<Rightarrow>
         Inr (Some \<lparr>timestamp = ts, bid = b, ask = a, volume = v\<rparr>)))))))))"

text \<open>
  \<open>next\<close>. The result \<open>Inr (None, r)\<close> is \<open>false\<close> (end of stream),
  \<open>Inr (Some t, r)\<close> is \<open>true\<close>. \<open>newline_offset current\<close> is \<open>nl - current\<close>: the
  offset of the next newline, or of the end of the data when \<open>memchr\<close> finds none.
  \<open>trim_cr\<close> drops one trailing carriage return from the line length.
\<close>

definition newline_offset :: "string \<Rightarrow> nat" where
  "newline_offset current =
     (case memchr current LF of Some i \<Rightarrow> i | None \<Rightarrow> length current)"

definition trim_cr :: "string \<Rightarrow> nat \<Rightarrow> nat" where
  "trim_cr current lineLen =
     (if lineLen > 0 \<and> current ! (lineLen - 1) = CR then lineLen - 1 else lineLen)"

function next_tick :: "stod_fn \<Rightarrow> MarketDataReader \<Rightarrow> error + (Tick option \<times> MarketDataReader)" where
  "next_tick stod r =
     (case data r of
        None \<Rightarrow> Inr (None, r)
      | Some d \<Rightarrow>
          if length d \<le> position r then Inr (None, r)
          else
            let current = drop (position r) d;
                nl = newline_offset current
            in if nl = 0 then Inr (None, r)
               else
                 let lineLen = trim_cr current nl;
                     r' = r\<lparr>position := position r + nl + 1\<rparr>
                 in if lineLen > 0 then
                      (case parseLine stod (take lineLen current) of
                         Inl e \<Rightarrow> Inl e
                       | Inr (Some tick) \<Rightarrow> Inr (Some tick, r')
                       | Inr None \<Rightarrow> next_tick stod r')
                    else next_tick stod r')"
  by pat_completeness auto

lemma takeWhile_length_less:
  "c \<in> set s \<Longrightarrow> length (takeWhile (\<lambda>x. x \<noteq> c) s) < length s"
  by (induction s) auto

lemma memchr_less_length: "memchr s c = Some i \<Longrightarrow> i < length s"
  by (auto simp: memchr_def takeWhile_length_less split: if_splits)

lemma newline_offset_le: "newline_offset s \<le> length s"
  by (auto simp: newline_offset_def split: option.splits dest: memchr_less_length)

termination next_tick
proof (relation "measure (\<lambda>(stod, r). Suc (size_r r) - position r)", goal_cases)
  case 1
  show ?case by simp
next
  case (2 stod r d current nl lineLen r')
  then show ?case
    using newline_offset_le [of "drop (position r) d"] by (simp add: size_r_def)
next
  case (3 stod r d current nl lineLen r')
  then show ?case
    using newline_offset_le [of "drop (position r) d"] by (simp add: size_r_def)
qed

declare next_tick.simps [simp del]

lemma next_tick_position_aux:
  "(case next_tick stod r of
      Inl e \<Rightarrow> True
    | Inr (res, r') \<Rightarrow>
        data r' = data r \<and> position r \<le> position r' \<and>
        (res \<noteq> None \<longrightarrow> position r < position r' \<and> position r' \<le> Suc (size_r r)))"
proof (induction stod r rule: next_tick.induct)
  case (1 stod r)
  show ?case
  proof (cases "data r")
    case None
    then show ?thesis by (simp add: next_tick.simps)
  next
    case (Some d)
    show ?thesis
    proof (cases "length d \<le> position r")
      case True
      with Some show ?thesis by (simp add: next_tick.simps)
    next
      case False
      note le = newline_offset_le [of "drop (position r) d"]
      note IH = "1.IH" [OF Some False refl refl _ refl refl]
      from IH Some False le show ?thesis
        unfolding next_tick.simps [of stod r]
        by (auto simp: Let_def size_r_def split: if_splits sum.splits option.splits)
    qed
  qed
qed

lemma next_tick_position:
  assumes "next_tick stod r = Inr (res, r')"
  shows "data r' = data r" and "position r \<le> position r'"
    and "res \<noteq> None \<Longrightarrow> position r < position r' \<and> position r' \<le> Suc (size_r r)"
  using next_tick_position_aux [where stod = stod and r = r] assms by simp_all


text \<open>
  A full iteration, as the callers write it: \<open>while (reader.next(tick)) { ... }\<close>,
  collecting the ticks delivered.
\<close>

function iterate :: "stod_fn \<Rightarrow> MarketDataReader \<Rightarrow> error + (Tick list \<times> MarketDataReader)" where
  "iterate stod r =
     (case next_tick stod r of
        Inl e \<Rightarrow> Inl e
      | Inr (None, r') \<Rightarrow> Inr ([], r')
      | Inr (Some tick, r') \<Rightarrow>
          (case iterate stod r' of
             Inl e \<Rightarrow> Inl e
           | Inr (ticks, r'') \<Rightarrow> Inr (tick # ticks, r'')))"
  by pat_completeness auto

lemma next_tick_measure:
  assumes "next_tick stod r = Inr (Some tick, r')"
  shows "Suc (size_r r') - position r' < Suc (size_r r) - position r"
proof -
  have "data r' = data r" and p: "position r < position r' \<and> position r' \<le> Suc (size_r r)"
    using next_tick_position [OF assms] by simp_all
  then have "size_r r' = size_r r" by (simp add: size_r_def)
  with p show ?thesis by linarith
qed

termination iterate
  by (relation "measure (\<lambda>(stod, r). Suc (size_r r) - position r)")
     (auto dest: next_tick_measure)

declare iterate.simps [simp del]

subsection \<open>RollingStatistics\<close>

record RollingStatistics =
  windowSize :: nat
  buffer :: "real list"
  writeIndex :: nat
  count :: nat
  alpha :: real
  mean :: real
  variance :: real
  m2 :: real

text \<open>
  The constructor; the ring buffer has the window size rounded up to a multiple of
  eight, zero-filled. (A failed allocation is not modelled.)
\<close>

definition new_RollingStatistics :: "nat \<Rightarrow> RollingStatistics" where
  "new_RollingStatistics w =
     \<lparr>windowSize = w, buffer = replicate ((w + 7) div 8 * 8) 0, writeIndex = 0, count = 0,
      alpha = 2 / (real w + 1), mean = 0, variance = 0, m2 = 0\<rparr>"

definition updateEWMA :: "real \<Rightarrow> RollingStatistics \<Rightarrow> RollingStatistics" where
  "updateEWMA x s =
     (let oldMean = mean s;
          s1 = s\<lparr>mean := alpha s * x + (1 - alpha s) * mean s\<rparr>;
          delta = x - oldMean;
          deltaMean = mean s1 - oldMean;
          s2 = s1\<lparr>variance := (1 - alpha s1) * (variance s1 + alpha s1 * delta * delta)\<rparr>
      in if variance s2 < 0 then s2\<lparr>variance := 0\<rparr> else s2)"

text \<open>
  \<open>update\<close>. With a window size of zero the source computes \<open>writeIndex_ % 0\<close>, which
  is undefined; the theorems below assume a positive window.
\<close>

definition update :: "real \<Rightarrow> RollingStatistics \<Rightarrow> RollingStatistics" where
  "update x s =
     (let idx = writeIndex s mod windowSize s;
          oldCount = count s;
          s1 = s\<lparr>writeIndex := writeIndex s + 1, count := count s + 1\<rparr>;
          oldValue = buffer s1 ! idx;
          s2 = s1\<lparr>buffer := (buffer s1)[idx := x]\<rparr>
      in if oldCount < windowSize s2 then
           (if oldCount = 0 then s2\<lparr>mean := x, variance := 0, m2 := 0\<rparr>
            else
              let delta = x - mean s2;
                  s3 = s2\<lparr>mean := mean s2 + delta / real (oldCount + 1)\<rparr>;
                  delta2 = x - mean s3;
                  s4 = s3\<lparr>m2 := m2 s3 + delta * delta2\<rparr>
              in s4\<lparr>variance := m2 s4 / real (oldCount + 1)\<rparr>)
         else updateEWMA x s2)"

definition stddev :: "RollingStatistics \<Rightarrow> real" where
  "stddev s = sqrt (variance s)"

definition zscore :: "real \<Rightarrow> RollingStatistics \<Rightarrow> real" where
  "zscore x s = (let sd = stddev s in if sd > 1 / 10 ^ 10 then (x - mean s) / sd else 0)"

definition isReady :: "RollingStatistics \<Rightarrow> bool" where
  "isReady s = (count s \<ge> windowSize s)"

subsection \<open>SignalGenerator\<close>

datatype Signal = FLAT | LONG | SHORT

record SignalGenerator =
  threshold :: real
  currentSignal :: Signal
  lastZScore :: real

definition new_SignalGenerator :: "real \<Rightarrow> SignalGenerator" where
  "new_SignalGenerator th = \<lparr>threshold = th, currentSignal = FLAT, lastZScore = 0\<rparr>"

definition generate :: "real \<Rightarrow> RollingStatistics \<Rightarrow> SignalGenerator \<Rightarrow> Signal \<times> SignalGenerator" where
  "generate price stats g =
     (if \<not> isReady stats then (FLAT, g)
      else
        let z = zscore price stats;
            g1 = g\<lparr>lastZScore := z\<rparr>;
            g2 = (case currentSignal g1 of
                    FLAT \<Rightarrow>
                      if z < - threshold g1 then g1\<lparr>currentSignal := LONG\<rparr>
                      else if z > threshold g1 then g1\<lparr>currentSignal := SHORT\<rparr>
                      else g1
                  | LONG \<Rightarrow> if z \<ge> 0 then g1\<lparr>currentSignal := FLAT\<rparr> else g1
                  | SHORT \<Rightarrow> if z \<le> 0 then g1\<lparr>currentSignal := FLAT\<rparr> else g1)
        in (currentSignal g2, g2))"

subsection \<open>Backtester\<close>

text \<open>
  The subtraction of two \<open>int64_t\<close> values. When the exact difference lies outside
  \<open>int64_t\<close> the C++ operation overflows, which the language leaves undefined; the
  model gives it the two's-complement result that the compiled program computes.
\<close>

definition sub_int64 :: "int \<Rightarrow> int \<Rightarrow> int" where
  "sub_int64 a b = (a - b + 2 ^ 63) mod 2 ^ 64 - 2 ^ 63"

record Trade =
  entryTime :: int
  exitTime :: int
  entryPrice :: real
  exitPrice :: real
  direction :: Signal
  pnl :: real
  duration :: int

record PerformanceMetrics =
  totalReturn :: real
  volatility :: real
  sharpeRatio :: real
  maxDrawdown :: real
  winRate :: real
  avgTradeLength :: real
  ticksPerSecond :: real
  totalTrades :: nat
  winningTrades :: nat
  totalTicks :: nat

record Backtester =
  commission :: real
  slippage :: real
  trades :: "Trade list"
  equityCurve :: "real list"
  equityTimestamps :: "int list"
  currentPosition :: Signal
  entryPrice_bt :: real
  entryTime_bt :: int
  equity :: real
  peakEquity :: real
  maxDrawdown_bt :: real

text \<open>
  The constructor. The class declares \<open>tickSize_ = 0.25\<close> after \<open>slippage_\<close>, and members
  are initialised in the order of their declaration, so the initialiser
  \<open>slippage_(slippage * tickSize_)\<close> reads \<open>tickSize_\<close> before it has been set. The
  value of that read is indeterminate: it is whatever the storage of the object
  holds, not the declared \<open>0.25\<close>. The model takes it as a third
  argument, \<open>tickSize_read\<close>. In a freshly zeroed object the read gives \<open>0\<close>, and the
  runs on concrete files below are evaluated there; the general theorems hold for
  every \<open>Backtester\<close> object, whatever its slippage.
\<close>

definition new_Backtester :: "real \<Rightarrow> real \<Rightarrow> real \<Rightarrow> Backtester" where
  "new_Backtester comm slip tickSize_read =
     \<lparr>commission = comm, slippage = slip * tickSize_read, trades = [],
      equityCurve = [100000], equityTimestamps = [0], currentPosition = FLAT,
      entryPrice_bt = 0, entryTime_bt = 0, equity = 100000, peakEquity = 100000,
      maxDrawdown_bt = 0\<rparr>"

definition getFillPrice :: "real \<Rightarrow> Signal \<Rightarrow> Backtester \<Rightarrow> real" where
  "getFillPrice midPrice dir b =
     (if dir = LONG then midPrice + slippage b
      else if dir = SHORT then midPrice - slippage b
      else midPrice)"

definition closePosition :: "real \<Rightarrow> int \<Rightarrow> Backtester \<Rightarrow> Backtester" where
  "closePosition price ts b =
     (if currentPosition b = FLAT then b
      else
        let exitDirection = (if currentPosition b = LONG then SHORT else LONG);
            fillPrice = getFillPrice price exitDirection b;
            pnl0 = (if currentPosition b = LONG then (fillPrice - entryPrice_bt b) * 50
                    else (entryPrice_bt b - fillPrice) * 50);
            pnl1 = pnl0 - commission b;
            b1 = b\<lparr>equity := equity b + pnl1\<rparr>;
            trade = \<lparr>entryTime = entryTime_bt b1, exitTime = ts,
                     entryPrice = entryPrice_bt b1, exitPrice = fillPrice,
                     direction = currentPosition b1, pnl = pnl1,
                     duration = sub_int64 ts (entryTime_bt b1)\<rparr>;
            b2 = b1\<lparr>trades := trades b1 @ [trade]\<rparr>
        in b2\<lparr>currentPosition := FLAT\<rparr>)"

text \<open>
  \<open>updatePosition\<close>. The drawdown divides by the peak, which \<open>run\<close> starts at \<open>100000\<close>
  and \<open>updatePosition\<close> only raises.
\<close>

definition updatePosition :: "real \<Rightarrow> int \<Rightarrow> Signal \<Rightarrow> Backtester \<Rightarrow> Backtester" where
  "updatePosition price ts signal b =
     (if signal = currentPosition b then b
      else
        let b1 = (if currentPosition b \<noteq> FLAT then closePosition price ts b else b);
            b2 = (if signal \<noteq> FLAT then
                    let fillPrice = getFillPrice price signal b1
                    in b1\<lparr>currentPosition := signal, entryPrice_bt := fillPrice,
                          entryTime_bt := ts, equity := equity b1 - commission b1\<rparr>
                  else b1);
            b3 = b2\<lparr>equityCurve := equityCurve b2 @ [equity b2],
                    equityTimestamps := equityTimestamps b2 @ [ts]\<rparr>;
            b4 = (if equity b3 > peakEquity b3 then b3\<lparr>peakEquity := equity b3\<rparr> else b3);
            drawdown = (peakEquity b4 - equity b4) / peakEquity b4
        in if drawdown > maxDrawdown_bt b4 then b4\<lparr>maxDrawdown_bt := drawdown\<rparr> else b4)"

text \<open>
  \<open>calculateMetrics\<close>. \<open>equity_returns\<close> is the loop over adjacent equity samples,
  which keeps a return only when the earlier sample is positive. The elapsed time
  \<open>endTime - startTime\<close> of \<open>ticks_per_second\<close> is an \<open>int64_t\<close> subtraction.
\<close>

fun equity_returns :: "real list \<Rightarrow> real list" where
  "equity_returns (a # b # rest) =
     (if a > 0 then (b - a) / a # equity_returns (b # rest) else equity_returns (b # rest))"
| "equity_returns _ = []"

definition ticks_per_second :: "int \<Rightarrow> int \<Rightarrow> nat \<Rightarrow> real" where
  "ticks_per_second startTime endTime tickCount =
     (if endTime > startTime then
        (let seconds = real_of_int (sub_int64 endTime startTime) / 10 ^ 6
         in if seconds > 0 then real tickCount / seconds else 0)
      else 0)"

definition calculateMetrics :: "int \<Rightarrow> int \<Rightarrow> nat \<Rightarrow> Backtester \<Rightarrow> PerformanceMetrics" where
  "calculateMetrics startTime endTime tickCount b =
     (if trades b = [] then
        \<lparr>totalReturn = 0, volatility = 0, sharpeRatio = 0, maxDrawdown = maxDrawdown_bt b,
         winRate = 0, avgTradeLength = 0,
         ticksPerSecond = ticks_per_second startTime endTime tickCount,
         totalTrades = 0, winningTrades = 0, totalTicks = tickCount\<rparr>
      else
        let initialEquity = 100000;
            finalEquity = equity b;
            total_return = (finalEquity - initialEquity) / initialEquity;
            total_trades = length (trades b);
            winning_trades = length (filter (\<lambda>t. pnl t > 0) (trades b));
            win_rate = (if total_trades > 0 then real winning_trades / real total_trades else 0);
            totalDuration = foldl (\<lambda>acc t. acc + real_of_int (duration t)) 0 (trades b);
            avg_trade_length =
              (if total_trades > 0 then (totalDuration / real total_trades) / 10 ^ 6 else 0);
            vol =
              (if length (equityCurve b) > 1 then
                 (let returns = equity_returns (equityCurve b)
                  in if returns \<noteq> [] then
                       (let meanReturn = foldl (+) 0 returns / real (length returns);
                            var0 = foldl (\<lambda>acc r. acc + (r - meanReturn) * (r - meanReturn)) 0 returns;
                            var1 = var0 / real (length returns)
                        in sqrt var1 * sqrt (252 * 24 * 60 * 60))
                     else 0)
               else 0);
            sharpe = (if vol > 1 / 10 ^ 10 then total_return / vol * sqrt 252 else 0)
        in \<lparr>totalReturn = total_return, volatility = vol, sharpeRatio = sharpe,
            maxDrawdown = maxDrawdown_bt b, winRate = win_rate,
            avgTradeLength = avg_trade_length,
            ticksPerSecond = ticks_per_second startTime endTime tickCount,
            totalTrades = total_trades, winningTrades = winning_trades,
            totalTicks = tickCount\<rparr>)"

text \<open>
  \<open>run\<close>. The locals of the function that live across the loop are a record;
  \<open>process_tick\<close> is the loop body and \<open>run_loop\<close> the \<open>while\<close> loop. \<open>lastTick\<close> is
  \<open>None\<close> while the local is uninitialised. An exception of the reader leaves \<open>run\<close>.
\<close>

record RunState =
  reader :: MarketDataReader
  stats :: RollingStatistics
  signalGen :: SignalGenerator
  backtester :: Backtester
  lastTick :: "Tick option"
  startTime :: int
  endTime :: int
  tickCount :: nat

definition process_tick :: "Tick \<Rightarrow> RunState \<Rightarrow> RunState" where
  "process_tick tick st =
     (let st1 = (if startTime st = 0 then st\<lparr>startTime := timestamp tick\<rparr> else st);
          st2 = st1\<lparr>endTime := timestamp tick, tickCount := tickCount st1 + 1,
                    lastTick := Some tick\<rparr>;
          midPrice = mid tick;
          st3 = st2\<lparr>stats := update midPrice (stats st2)\<rparr>;
          (signal, g) = generate midPrice (stats st3) (signalGen st3);
          st4 = st3\<lparr>signalGen := g\<rparr>
      in st4\<lparr>backtester := updatePosition midPrice (timestamp tick) signal (backtester st4)\<rparr>)"

function run_loop :: "stod_fn \<Rightarrow> RunState \<Rightarrow> error + RunState" where
  "run_loop stod st =
     (case next_tick stod (reader st) of
        Inl e \<Rightarrow> Inl e
      | Inr (None, r') \<Rightarrow> Inr (st\<lparr>reader := r'\<rparr>)
      | Inr (Some tick, r') \<Rightarrow> run_loop stod (process_tick tick (st\<lparr>reader := r'\<rparr>)))"
  by pat_completeness auto

lemma process_tick_reader [simp]: "reader (process_tick tick st) = reader st"
  by (simp add: process_tick_def Let_def split: prod.splits)

termination run_loop
  by (relation "measure (\<lambda>(stod, st). Suc (size_r (reader st)) - position (reader st))")
     (auto dest: next_tick_measure)

declare run_loop.simps [simp del]

definition force_close :: "RunState \<Rightarrow> Backtester" where
  "force_close st =
     (if currentPosition (backtester st) \<noteq> FLAT \<and> tickCount st > 0 then
        (case lastTick st of
           Some t \<Rightarrow> closePosition (mid t) (timestamp t) (backtester st)
         | None \<Rightarrow> backtester st)
      else backtester st)"

definition run_init :: "MarketDataReader \<Rightarrow> real \<Rightarrow> Backtester \<Rightarrow> RunState" where
  "run_init rd th b =
     (let b1 = b\<lparr>trades := [], equityCurve := [], equityTimestamps := [],
                 equity := 100000, peakEquity := 100000, maxDrawdown_bt := 0,
                 currentPosition := FLAT\<rparr>;
          b2 = b1\<lparr>equityCurve := equityCurve b1 @ [equity b1],
                  equityTimestamps := equityTimestamps b1 @ [0]\<rparr>
      in \<lparr>reader = rd, stats = new_RollingStatistics 20000,
          signalGen = new_SignalGenerator th, backtester = b2, lastTick = None,
          startTime = 0, endTime = 0, tickCount = 0\<rparr>)"

definition run :: "stod_fn \<Rightarrow> string option \<Rightarrow> real \<Rightarrow> Backtester \<Rightarrow> error + (PerformanceMetrics \<times> Backtester)" where
  "run stod dataFile th b =
     (let rd = new_MarketDataReader dataFile in
      if \<not> isValid rd then Inl RuntimeError
      else
        (case run_loop stod (run_init rd th b) of
           Inl e \<Rightarrow> Inl e
         | Inr st \<Rightarrow>
             let b' = force_close st
             in Inr (calculateMetrics (startTime st) (endTime st) (tickCount st) b', b')))"

section \<open>Notions of the specification\<close>

text \<open>The capacities the queue is meant to accept: \<open>2 ^ k\<close> for some \<open>k < 64\<close>.\<close>

definition is_power_of_two :: "64 word \<Rightarrow> bool" where
  "is_power_of_two c = (\<exists>k\<in>set [0..<64]. c = 2 ^ k)"


text \<open>
  A sample stream fed to an estimator, one \<open>update\<close> per sample, and the exact
  population mean and variance of a list of samples.
\<close>

definition updates :: "real list \<Rightarrow> RollingStatistics \<Rightarrow> RollingStatistics" where
  "updates xs s = foldl (\<lambda>s x. update x s) s xs"

definition pop_mean :: "real list \<Rightarrow> real" where
  "pop_mean xs = sum_list xs / real (length xs)"

definition sum_sq_dev :: "real list \<Rightarrow> real \<Rightarrow> real" where
  "sum_sq_dev xs a = (\<Sum>y\<leftarrow>xs. (y - a)\<^sup>2)"

definition pop_variance :: "real list \<Rightarrow> real" where
  "pop_variance xs = sum_sq_dev xs (pop_mean xs) / real (length xs)"


text \<open>An estimator that is ready, with mean \<open>0\<close> and variance \<open>1\<close>: its z-score of a
  price is the price.\<close>

definition ready_unit_stats :: RollingStatistics where
  "ready_unit_stats = \<lparr>windowSize = 1, buffer = [0,0,0,0,0,0,0,0], writeIndex = 1, count = 1,
      alpha = 1, mean = 0, variance = 1, m2 = 0\<rparr>"

text \<open>
  The ticks of a stream pushed through the loop body one after the other, and the
  transitions of the position inside the loop: for every tick at which the position
  after the tick differs from the position before it, the pair of the tick's timestamp
  and the equity after the tick.
\<close>

definition process_ticks :: "Tick list \<Rightarrow> RunState \<Rightarrow> RunState" where
  "process_ticks ticks st = foldl (\<lambda>s t. process_tick t s) st ticks"

fun transitions :: "Tick list \<Rightarrow> RunState \<Rightarrow> (int \<times> real) list" where
  "transitions [] st = []"
| "transitions (t # ts) st =
     (let st' = process_tick t st
      in if currentPosition (backtester st') \<noteq> currentPosition (backtester st)
         then (timestamp t, equity (backtester st')) # transitions ts st'
         else transitions ts st')"

subsection \<open>Input files and the states they lead to\<close>

text \<open>
  Small files: the three records of the reader's basic test, the file of the test on
  malformed lines, a file with an empty line between two records, a file with a line
  of two numeric fields, an empty line ending in CR LF and a last record without a
  newline, and a file with one record.
\<close>

definition three_ticks :: string where
  "three_ticks = ''timestamp,bid,ask,volume\<newline>1000000,4500.25,4500.50,100\<newline>2000000,4500.75,4501.00,200\<newline>3000000,4501.25,4501.50,150\<newline>''"

definition malformed_lines :: string where
  "malformed_lines = ''timestamp,bid,ask,volume\<newline>1000000,4500.25,4500.50,100\<newline>invalid_line\<newline>2000000,4500.75,4501.00,200\<newline>another,bad,line\<newline>3000000,4501.25,4501.50,150\<newline>''"

definition blank_line_inside :: string where
  "blank_line_inside = ''timestamp,bid,ask,volume\<newline>1000000,4500.25,4500.50,100\<newline>\<newline>2000000,4500.75,4501.00,200\<newline>''"

definition short_and_crlf_lines :: string where
  "short_and_crlf_lines =
     ''timestamp,bid,ask,volume\<newline>12,5.5\<newline>'' @ [CR, LF] @ ''1000000,4500.25,4500.50,100''"

definition one_tick :: string where
  "one_tick = ''timestamp,bid,ask,volume\<newline>1000000,4500.25,4500.50,100\<newline>''"

definition first_tick :: Tick where
  "first_tick = \<lparr>timestamp = 1000000, bid = 18001 / 4, ask = 9001 / 2, volume = 100\<rparr>"

text \<open>
  Long files. \<open>run\<close> builds its estimator with a window of 20000 samples, so no signal
  is generated before the 20000th record. Each file has 19999 records at the price
  \<open>100\<close> and then a record at \<open>50\<close>, which opens a long position; \<open>entry_on_last_tick\<close>
  ends there, \<open>open_at_end\<close> adds a record at \<open>60\<close> (the position stays open),
  \<open>round_trip\<close> adds a record at \<open>100\<close> (the position is closed inside the loop).
  The branches taken have wide margins: the z-score of the record at \<open>50\<close> is about
  \<open>-141\<close> against the threshold \<open>-2.5\<close>, that of the record at \<open>60\<close> about \<open>-75\<close>, and
  the record at \<open>100\<close> lies \<open>0.0025\<close> above the mean.
\<close>

definition header_line :: string where
  "header_line = ''timestamp,bid,ask,volume''"

definition csv_file :: "string list \<Rightarrow> string" where
  "csv_file ls = header_line @ LF # concat (map (\<lambda>l. l @ [LF]) ls)"

definition entry_on_last_tick :: string where
  "entry_on_last_tick = csv_file (replicate 19999 ''1,100,100,1'' @ [''2,50,50,1''])"

definition open_at_end :: string where
  "open_at_end = csv_file (replicate 19999 ''1,100,100,1'' @ [''2,50,50,1'', ''3,60,60,1''])"

definition round_trip :: string where
  "round_trip = csv_file (replicate 19999 ''1,100,100,1'' @ [''2,50,50,1'', ''3,100,100,1''])"

definition tick_calm :: Tick where
  "tick_calm = \<lparr>timestamp = 1, bid = 100, ask = 100, volume = 1\<rparr>"

definition tick_drop :: Tick where
  "tick_drop = \<lparr>timestamp = 2, bid = 50, ask = 50, volume = 1\<rparr>"

definition tick_up :: Tick where
  "tick_up = \<lparr>timestamp = 3, bid = 60, ask = 60, volume = 1\<rparr>"

definition tick_back :: Tick where
  "tick_back = \<lparr>timestamp = 3, bid = 100, ask = 100, volume = 1\<rparr>"

definition line_tick :: "string \<Rightarrow> Tick" where
  "line_tick l = (if l = ''1,100,100,1'' then tick_calm
                  else if l = ''2,50,50,1'' then tick_drop
                  else if l = ''3,60,60,1'' then tick_up else tick_back)"

text \<open>
  The \<open>Backtester(2.10, 1.0)\<close> as \<open>run\<close> resets it, after the long entry at the record
  \<open>2,50,50,1\<close>, and after each of the three ways the position is closed. The
  argument \<open>s\<close> is the slippage that the constructor stored, \<open>1.0\<close> times the
  indeterminate read; \<open>closed_in_loop\<close> is the state with slippage \<open>0\<close>.
\<close>

definition armed_backtester :: "real \<Rightarrow> Backtester" where
  "armed_backtester s =
     \<lparr>commission = 21 / 10, slippage = s, trades = [],
      equityCurve = [100000], equityTimestamps = [0], currentPosition = FLAT,
      entryPrice_bt = 0, entryTime_bt = 0, equity = 100000, peakEquity = 100000,
      maxDrawdown_bt = 0\<rparr>"

definition long_backtester :: "real \<Rightarrow> Backtester" where
  "long_backtester s =
     \<lparr>commission = 21 / 10, slippage = s, trades = [],
      equityCurve = [100000, 999979 / 10], equityTimestamps = [0, 2], currentPosition = LONG,
      entryPrice_bt = 50 + s, entryTime_bt = 2, equity = 999979 / 10, peakEquity = 100000,
      maxDrawdown_bt = 21 / 1000000\<rparr>"

definition closed_on_entry_tick :: "real \<Rightarrow> Backtester" where
  "closed_on_entry_tick s =
     (long_backtester s)\<lparr>equity := 499979 / 5 - 100 * s,
       trades := [\<lparr>entryTime = 2, exitTime = 2, entryPrice = 50 + s, exitPrice = 50 - s,
                  direction = LONG, pnl = - (21 / 10) - 100 * s, duration = 0\<rparr>],
       currentPosition := FLAT\<rparr>"

definition closed_after_rise :: "real \<Rightarrow> Backtester" where
  "closed_after_rise s =
     (long_backtester s)\<lparr>equity := 502479 / 5 - 100 * s,
       trades := [\<lparr>entryTime = 2, exitTime = 3, entryPrice = 50 + s, exitPrice = 60 - s,
                  direction = LONG, pnl = 4979 / 10 - 100 * s, duration = 1\<rparr>],
       currentPosition := FLAT\<rparr>"

definition closed_in_loop :: Backtester where
  "closed_in_loop =
     \<lparr>commission = 21 / 10, slippage = 0,
      trades = [\<lparr>entryTime = 2, exitTime = 3, entryPrice = 50, exitPrice = 100,
                 direction = LONG, pnl = 24979 / 10, duration = 1\<rparr>],
      equityCurve = [100000, 999979 / 10, 512479 / 5], equityTimestamps = [0, 2, 3],
      currentPosition = FLAT, entryPrice_bt = 50, entryTime_bt = 2,
      equity = 512479 / 5, peakEquity = 512479 / 5, maxDrawdown_bt = 21 / 1000000\<rparr>"

text \<open>
  What is known of the loop state after \<open>n\<close> calm records, after the entry, and after
  the last record of \<open>open_at_end\<close> and of \<open>round_trip\<close>.
\<close>

definition calm_state :: "nat \<Rightarrow> RunState \<Rightarrow> RunState \<Rightarrow> bool" where
  "calm_state n st0 st =
     (backtester st = backtester st0 \<and> signalGen st = signalGen st0 \<and>
      count (stats st) = n \<and> windowSize (stats st) = 20000 \<and>
      alpha (stats st) = 2 / 20001 \<and> tickCount st = n \<and>
      (n = 0 \<or> (mean (stats st) = 100 \<and> m2 (stats st) = 0 \<and> variance (stats st) = 0 \<and>
        lastTick st = Some tick_calm \<and> startTime st = 1 \<and> endTime st = 1)) \<and>
      (n = 0 \<longrightarrow> startTime st = 0))"

definition entered_state :: "real \<Rightarrow> RunState \<Rightarrow> bool" where
  "entered_state s st =
     (backtester st = long_backtester s \<and> currentSignal (signalGen st) = LONG \<and>
      threshold (signalGen st) = 5 / 2 \<and>
      count (stats st) = 20000 \<and> windowSize (stats st) = 20000 \<and>
      alpha (stats st) = 2 / 20001 \<and> mean (stats st) = 39999 / 400 \<and>
      variance (stats st) = 19999 / 160000 \<and>
      tickCount st = 20000 \<and> lastTick st = Some tick_drop \<and> startTime st = 1 \<and> endTime st = 2)"

definition held_state :: "real \<Rightarrow> RunState \<Rightarrow> bool" where
  "held_state s st =
     (backtester st = long_backtester s \<and> tickCount st = 20001 \<and> lastTick st = Some tick_up \<and>
      startTime st = 1 \<and> endTime st = 3)"

definition exited_state :: "RunState \<Rightarrow> bool" where
  "exited_state st =
     (backtester st = closed_in_loop \<and> tickCount st = 20001 \<and> lastTick st = Some tick_back \<and>
      startTime st = 1 \<and> endTime st = 3)"

text \<open>
  The loop invariant behind the order of a trade's times, for a set \<open>T\<close> of
  timestamps that holds those of the ticks read: every logged trade has its two times
  in \<open>T\<close> and in order, and its duration is their \<open>int64_t\<close> difference; an open
  position was entered at a time of \<open>T\<close>, no later than the last tick seen.
\<close>

definition trade_times_inv :: "int set \<Rightarrow> RunState \<Rightarrow> bool" where
  "trade_times_inv T st =
     (list_all (\<lambda>tr. entryTime tr \<le> exitTime tr \<and>
                      duration tr = sub_int64 (exitTime tr) (entryTime tr) \<and>
                      entryTime tr \<in> T \<and> exitTime tr \<in> T)
        (trades (backtester st)) \<and>
      (currentPosition (backtester st) = FLAT \<or>
       (entryTime_bt (backtester st) \<in> T \<and>
        (case lastTick st of None \<Rightarrow> False
         | Some lt \<Rightarrow> entryTime_bt (backtester st) \<le> timestamp lt))) \<and>
      (case lastTick st of None \<Rightarrow> True | Some lt \<Rightarrow> timestamp lt \<in> T))"

section \<open>Theorems\<close>

subsection \<open>The constructor's capacity check\<close>

lemma nat_and_pred_eq_0:
  "(n::nat) AND (n - 1) = 0 \<longleftrightarrow> n = 0 \<or> (\<exists>k. n = 2 ^ k)"
proof (induction n rule: less_induct)
  case (less n)
  show ?case
  proof (cases "n = 0")
    case True
    then show ?thesis by simp
  next
    case n0: False
    show ?thesis
    proof (cases "even n")
      case True
      then obtain m where m: "n = 2 * m" by (elim evenE)
      with n0 have m0: "m \<noteq> 0" by simp
      have pred: "n - 1 = 1 + 2 * (m - 1)" using m m0 by simp
      have "n AND (n - 1) = 2 * (m AND (m - 1))"
        unfolding pred unfolding m by (simp add: and_nat_rec [of "2 * m"])
      moreover have "m AND (m - 1) = 0 \<longleftrightarrow> m = 0 \<or> (\<exists>k. m = 2 ^ k)"
        using less.IH [of m] m m0 by simp
      moreover have "(\<exists>k. m = 2 ^ k) \<longleftrightarrow> (\<exists>k. n = 2 ^ k)"
      proof
        assume "\<exists>k. m = 2 ^ k"
        then obtain k where "m = 2 ^ k" ..
        then have "n = 2 ^ Suc k" using m by simp
        then show "\<exists>k. n = 2 ^ k" ..
      next
        assume "\<exists>k. n = 2 ^ k"
        then obtain k where k: "n = 2 ^ k" ..
        with m m0 have "k \<noteq> 0" by (cases k) auto
        then obtain j where "k = Suc j" by (cases k) auto
        with k m have "m = 2 ^ j" by simp
        then show "\<exists>k. m = 2 ^ k" ..
      qed
      ultimately show ?thesis using m0 n0 by simp
    next
      case False
      then obtain m where m: "n = 2 * m + 1" by (elim oddE)
      have "n AND (n - 1) = 2 * m"
        unfolding m by (simp add: and_nat_rec [of "Suc (2 * m)"])
      moreover have "(\<exists>k. n = 2 ^ k) \<longleftrightarrow> m = 0"
      proof
        assume "\<exists>k. n = 2 ^ k"
        then obtain k where k: "n = 2 ^ k" ..
        show "m = 0"
        proof (cases k)
          case 0
          with k m show ?thesis by simp
        next
          case (Suc j)
          with k have "even n" by simp
          with False show ?thesis by simp
        qed
      next
        assume "m = 0"
        with m have "n = 2 ^ 0" by simp
        then show "\<exists>k. n = 2 ^ k" ..
      qed
      ultimately show ?thesis using n0 by simp
    qed
  qed
qed

lemma unat_two_power:
  assumes "k < 64"
  shows "unat (2 ^ k :: 64 word) = 2 ^ k"
proof -
  have lt: "(2::nat) ^ k < 2 ^ LENGTH(64)"
    by (rule power_strict_increasing) (use assms in simp_all)
  have "unat (2 ^ k :: 64 word) = unat (word_of_nat (2 ^ k) :: 64 word)" by simp
  also have "\<dots> = 2 ^ k mod 2 ^ LENGTH(64)" by (rule unat_of_nat)
  also have "\<dots> = 2 ^ k" using lt by (rule mod_less)
  finally show ?thesis .
qed

lemma is_power_of_two_unat: "is_power_of_two c \<longleftrightarrow> (\<exists>k. unat c = 2 ^ k)"
proof
  assume "is_power_of_two c"
  then obtain k where "k < 64" "c = 2 ^ k" by (auto simp: is_power_of_two_def)
  then have "unat c = 2 ^ k" by (simp add: unat_two_power)
  then show "\<exists>k. unat c = 2 ^ k" ..
next
  assume "\<exists>k. unat c = 2 ^ k"
  then obtain k where k: "unat c = 2 ^ k" ..
  have "unat c < 2 ^ LENGTH(64)" by (rule unsigned_less)
  with k have "(2::nat) ^ k < 2 ^ LENGTH(64)" by (simp only:)
  then have "k < LENGTH(64)" by (rule power_less_imp_less_exp [rotated]) simp
  then have lt: "k < 64" by simp
  have "c = word_of_nat (unat c)" by simp
  also have "\<dots> = 2 ^ k" unfolding k by simp
  finally show "is_power_of_two c" using lt by (auto simp: is_power_of_two_def)
qed

lemma word_and_pred_eq_0:
  fixes c :: "64 word"
  assumes "c \<noteq> 0"
  shows "c AND (c - 1) = 0 \<longleftrightarrow> is_power_of_two c"
proof -
  have u1: "unat (c - 1) = unat c - 1"
    using assms by (simp add: unat_minus_one)
  have "c AND (c - 1) = 0 \<longleftrightarrow> unat (c AND (c - 1)) = 0"
    by (simp add: unat_eq_0)
  also have "unat (c AND (c - 1)) = unat c AND (unat c - 1)"
    by (simp add: unsigned_and_eq u1)
  also have "(unat c AND (unat c - 1) = 0) \<longleftrightarrow> unat c = 0 \<or> (\<exists>k. unat c = 2 ^ k)"
    by (rule nat_and_pred_eq_0)
  finally show ?thesis
    using assms by (simp add: unat_eq_0 is_power_of_two_unat)
qed

lemma zero_not_power_of_two: "\<not> is_power_of_two 0"
  by (simp add: is_power_of_two_unat)

lemma power_of_two_1024: "is_power_of_two 1024"
proof -
  have "(1024 :: 64 word) = 2 ^ 10" by simp
  moreover have "(10::nat) \<in> set [0..<64]" by simp
  ultimately show ?thesis unfolding is_power_of_two_def by blast
qed

lemma not_power_of_two_1000: "\<not> is_power_of_two 1000"
proof
  assume "is_power_of_two 1000"
  then obtain k where "unat (1000 :: 64 word) = 2 ^ k" by (auto simp: is_power_of_two_unat)
  then have k: "(2::nat) ^ k = 1000" by simp
  have "(2::nat) ^ 9 < 2 ^ k" "(2::nat) ^ k < 2 ^ 10" unfolding k by simp_all
  then have "9 < k" "k < 10" by (simp_all only: power_strict_increasing_iff)
  then show False by simp
qed

text \<open>
  For a capacity other than zero that the allocator grants, the check is exact:
  construction throws \<open>InvalidArgument\<close> exactly when the capacity is not a power of
  two. A capacity that the allocator refuses throws \<open>BadAlloc\<close>, power of two or not.
\<close>

lemma new_LockFreeQueue_nonzero:
  fixes cap :: "64 word"
  assumes "cap \<noteq> 0" and "unat cap \<le> max_slots"
  shows "(new_LockFreeQueue max_slots cap = (Inl InvalidArgument :: error + 'a LockFreeQueue))
           = (\<not> is_power_of_two cap)"
    and "(\<exists>q :: 'a LockFreeQueue. new_LockFreeQueue max_slots cap = Inr q) = is_power_of_two cap"
  using word_and_pred_eq_0 [OF assms(1)] assms(2)
  by (auto simp: new_LockFreeQueue_def Let_def)

lemma new_LockFreeQueue_refused:
  "max_slots < unat cap \<Longrightarrow>
   new_LockFreeQueue max_slots cap = (Inl BadAlloc :: error + 'a LockFreeQueue)"
  by (simp add: new_LockFreeQueue_def)

lemma new_LockFreeQueue_1000:
  "1000 \<le> max_slots \<Longrightarrow>
   new_LockFreeQueue max_slots 1000 = (Inl InvalidArgument :: error + 'a LockFreeQueue)"
  by (simp add: new_LockFreeQueue_def)

lemma new_LockFreeQueue_1024:
  "1024 \<le> max_slots \<Longrightarrow>
   new_LockFreeQueue max_slots 1024 =
     (Inr \<lparr>capacity = 1024, mask_q = 1023, buffer_q = replicate 1024 None,
           head = 0, tail = 0\<rparr> :: error + 'a LockFreeQueue)"
  by (simp add: new_LockFreeQueue_def)

text \<open>
  Claim C7: construction fails with \<open>InvalidArgument\<close> for every capacity that is not a
  power of two, and succeeds for every power of two.

  The code misses one case. At capacity \<open>0\<close> the mask wraps to \<open>2 ^ 64 - 1\<close>, the
  allocation of no slots succeeds whatever the allocator grants, the test
  \<open>(capacity & mask_) != 0\<close> is false, and the constructor returns a queue with no
  slots, although \<open>0\<close> is not a power of two.
\<close>

theorem new_LockFreeQueue_zero_accepted:
  "new_LockFreeQueue max_slots 0 =
     (Inr \<lparr>capacity = 0, mask_q = - 1, buffer_q = [], head = 0, tail = 0\<rparr>
        :: error + 'a LockFreeQueue)
   \<and> \<not> is_power_of_two 0"
  by (simp add: new_LockFreeQueue_def zero_not_power_of_two)

text \<open>
  Claim C10: for every queue state, \<open>tryPush(nullptr)\<close> returns \<open>false\<close> and leaves the
  queue as it was: no slot is written and the tail index does not advance. This holds
  whatever the compare-exchange would have done.
\<close>

theorem tryPush_nullptr:
  "tryPush None cas_ok q = Some (False, q)"
  by (simp add: tryPush_def)


subsection \<open>RollingStatistics: the two-phase recurrence\<close>

lemma updates_Nil [simp]: "updates [] s = s" by (simp add: updates_def)
lemma updates_snoc [simp]: "updates (xs @ [x]) s = update x (updates xs s)" by (simp add: updates_def)

lemma update_count [simp]: "count (update x s) = count s + 1"
  by (simp add: update_def updateEWMA_def Let_def)
lemma update_windowSize [simp]: "windowSize (update x s) = windowSize s"
  by (simp add: update_def updateEWMA_def Let_def)
lemma update_alpha [simp]: "alpha (update x s) = alpha s"
  by (simp add: update_def updateEWMA_def Let_def)

lemma updates_count: "count (updates xs s) = count s + length xs"
  by (induction xs rule: rev_induct) simp_all
lemma updates_windowSize [simp]: "windowSize (updates xs s) = windowSize s"
  by (induction xs rule: rev_induct) simp_all
lemma updates_alpha [simp]: "alpha (updates xs s) = alpha s"
  by (induction xs rule: rev_induct) simp_all

lemma update_first:
  "count s = 0 \<Longrightarrow> 0 < windowSize s \<Longrightarrow>
   mean (update x s) = x \<and> variance (update x s) = 0 \<and> m2 (update x s) = 0"
  by (simp add: update_def Let_def)

lemma update_welford:
  "0 < count s \<Longrightarrow> count s < windowSize s \<Longrightarrow>
   mean (update x s) = mean s + (x - mean s) / real (count s + 1) \<and>
   m2 (update x s) = m2 s + (x - mean s) * (x - (mean s + (x - mean s) / real (count s + 1))) \<and>
   variance (update x s) = m2 (update x s) / real (count s + 1)"
  by (simp add: update_def Let_def)

lemma update_ewma:
  "windowSize s \<le> count s \<Longrightarrow>
   mean (update x s) = alpha s * x + (1 - alpha s) * mean s \<and>
   variance (update x s) = max ((1 - alpha s) * (variance s + alpha s * (x - mean s)\<^sup>2)) 0 \<and>
   m2 (update x s) = m2 s"
  by (simp add: update_def updateEWMA_def Let_def power2_eq_square max_def algebra_simps)

lemma sum_sq_dev_shift:
  "sum_sq_dev xs a = sum_sq_dev xs b + 2 * (b - a) * (sum_list xs - real (length xs) * b) + real (length xs) * (b - a)\<^sup>2"
  by (induction xs) (simp_all add: sum_sq_dev_def power2_eq_square algebra_simps)

lemma sum_sq_dev_snoc: "sum_sq_dev (xs @ [x]) a = sum_sq_dev xs a + (x - a)\<^sup>2"
  by (simp add: sum_sq_dev_def)

lemma welford_step:
  fixes x :: real
  assumes n: "xs \<noteq> []"
  defines "n \<equiv> real (length xs)"
  defines "mu \<equiv> pop_mean xs"
  defines "mu' \<equiv> mu + (x - mu) / (n + 1)"
  shows "pop_mean (xs @ [x]) = mu'"
    and "sum_sq_dev (xs @ [x]) mu' = sum_sq_dev xs mu + (x - mu) * (x - mu')"
proof -
  have npos: "0 < n" using n by (simp add: n_def)
  have S: "sum_list xs = n * mu" using npos by (simp add: mu_def pop_mean_def n_def)
  show m: "pop_mean (xs @ [x]) = mu'"
    using npos by (simp add: pop_mean_def mu'_def S n_def [symmetric] field_simps)
  have "sum_sq_dev xs mu' = sum_sq_dev xs mu + n * (mu - mu')\<^sup>2"
    using sum_sq_dev_shift [of xs mu' mu] S by (simp add: n_def [symmetric])
  moreover have "n * (mu - mu')\<^sup>2 + (x - mu')\<^sup>2 = (x - mu) * (x - mu')"
  proof -
    define k where "k = n + 1"
    define d where "d = x - mu"
    have k: "0 < k" "n = k - 1" using npos by (simp_all add: k_def)
    have a: "mu - mu' = - (d / k)" by (simp add: mu'_def k_def d_def)
    have b: "x - mu' = d - d / k" by (simp add: mu'_def k_def d_def)
    have "(k - 1) * (d / k)\<^sup>2 + (d - d / k)\<^sup>2 = d * (d - d / k)"
      using k(1) by (simp add: power2_eq_square field_simps)
    then show ?thesis unfolding a b k(2) d_def [symmetric] by simp
  qed
  ultimately show "sum_sq_dev (xs @ [x]) mu' = sum_sq_dev xs mu + (x - mu) * (x - mu')"
    by (simp add: sum_sq_dev_snoc)
qed

lemma fill_phase_exact:
  assumes "xs \<noteq> []" "length xs \<le> w"
  shows "mean (updates xs (new_RollingStatistics w)) = pop_mean xs \<and>
         m2 (updates xs (new_RollingStatistics w)) = sum_sq_dev xs (pop_mean xs) \<and>
         variance (updates xs (new_RollingStatistics w)) = pop_variance xs"
  using assms
proof (induction xs rule: rev_induct)
  case Nil
  then show ?case by simp
next
  case (snoc x xs)
  let ?s = "updates xs (new_RollingStatistics w)"
  have c: "count ?s = length xs" by (simp add: updates_count new_RollingStatistics_def)
  have w: "windowSize ?s = w" by (simp add: new_RollingStatistics_def)
  show ?case
  proof (cases "xs = []")
    case True
    then show ?thesis
      using snoc.prems update_first [of ?s x] c w
      by (simp add: pop_mean_def pop_variance_def sum_sq_dev_def updates_def)
  next
    case False
    with snoc have IH: "mean ?s = pop_mean xs" "m2 ?s = sum_sq_dev xs (pop_mean xs)" by simp_all
    have lt: "0 < count ?s" "count ?s < windowSize ?s" using False snoc.prems c w by simp_all
    note U = update_welford [OF lt, of x]
    note W = welford_step [OF False, of x]
    have r: "real (count ?s + 1) = real (length xs) + 1" using c by simp
    have 1: "mean (update x ?s) = pop_mean (xs @ [x])"
      using U W(1) IH r by simp
    have 2: "m2 (update x ?s) = sum_sq_dev (xs @ [x]) (pop_mean (xs @ [x]))"
      using U W IH r by simp
    have 3: "variance (update x ?s) = pop_variance (xs @ [x])"
      using U 2 r by (simp add: pop_variance_def)
    show ?thesis using 1 2 3 by simp
  qed
qed


text \<open>
  Claim C2: \<open>update\<close> follows the two-phase recurrence. Let \<open>s\<close> be a fresh estimator of
  window \<open>w > 0\<close> after the samples \<open>xs\<close>, so that the pre-update count is
  \<open>k = length xs\<close>, and let \<open>x\<close> be the next sample.
  \<^item> If \<open>k = 0\<close>, the update sets the mean to \<open>x\<close> and the variance and \<open>m2\<close> to \<open>0\<close>.
  \<^item> If \<open>0 < k < w\<close>, it applies Welford's step with the denominator \<open>k + 1\<close>.
  \<^item> Hence for each of the first \<open>w\<close> updates the mean and the variance are the exact
    population mean and variance of the samples absorbed so far.
  \<^item> If \<open>k \<ge> w\<close>, it applies the exponentially weighted step with
    \<open>\<alpha> = 2 / (w + 1)\<close>, on the mean as it was before the update, clamped at \<open>0\<close>.
\<close>

theorem update_two_phase:
  fixes xs :: "real list" and x :: real and w :: nat
  defines "s \<equiv> updates xs (new_RollingStatistics w)"
  defines "k \<equiv> length xs"
  defines "a \<equiv> 2 / (real w + 1)"
  assumes w: "0 < w"
  shows "count s = k \<and>
         (k = 0 \<longrightarrow> mean (update x s) = x \<and> variance (update x s) = 0 \<and> m2 (update x s) = 0) \<and>
         (0 < k \<and> k < w \<longrightarrow>
            mean (update x s) = mean s + (x - mean s) / real (k + 1) \<and>
            m2 (update x s) = m2 s + (x - mean s) * (x - mean (update x s)) \<and>
            variance (update x s) = m2 (update x s) / real (k + 1)) \<and>
         (k < w \<longrightarrow>
            mean (update x s) = pop_mean (xs @ [x]) \<and>
            variance (update x s) = pop_variance (xs @ [x])) \<and>
         (w \<le> k \<longrightarrow>
            mean (update x s) = a * x + (1 - a) * mean s \<and>
            variance (update x s) = max ((1 - a) * (variance s + a * (x - mean s)\<^sup>2)) 0)"
proof -
  have c: "count s = k"
    by (simp add: s_def k_def updates_count new_RollingStatistics_def)
  have ws: "windowSize s = w"
    by (simp add: s_def new_RollingStatistics_def)
  have al: "alpha s = a"
    by (simp add: s_def a_def new_RollingStatistics_def)
  have first: "mean (update x s) = x \<and> variance (update x s) = 0 \<and> m2 (update x s) = 0"
    if "k = 0"
    using update_first [of s x] that c ws w by simp
  have welford:
    "mean (update x s) = mean s + (x - mean s) / real (k + 1) \<and>
     m2 (update x s) = m2 s + (x - mean s) * (x - mean (update x s)) \<and>
     variance (update x s) = m2 (update x s) / real (k + 1)"
    if "0 < k \<and> k < w"
    using update_welford [of s x] that c ws by simp
  have exact: "mean (update x s) = pop_mean (xs @ [x]) \<and>
     variance (update x s) = pop_variance (xs @ [x])"
    if "k < w"
    using fill_phase_exact [of "xs @ [x]" w] that by (simp add: s_def k_def)
  have ewma: "mean (update x s) = a * x + (1 - a) * mean s \<and>
     variance (update x s) = max ((1 - a) * (variance s + a * (x - mean s)\<^sup>2)) 0"
    if "w \<le> k"
    using update_ewma [of s x] that c ws al by simp
  show ?thesis
    using c first welford exact ewma by blast
qed

lemma updates_Cons: "updates (x # xs) s = updates xs (update x s)"
  by (simp add: updates_def)

theorem update_two_phase_witness:
  "mean (update 3 (updates [1] (new_RollingStatistics 2))) = 2 \<and>
   variance (update 3 (updates [1] (new_RollingStatistics 2))) = 1 \<and>
   mean (update 5 (updates [1, 3] (new_RollingStatistics 2))) = 4 \<and>
   variance (update 5 (updates [1, 3] (new_RollingStatistics 2))) = 7 / 3"
proof -
  have s2: "mean (updates [1, 3] (new_RollingStatistics 2)) = 2"
           "variance (updates [1, 3] (new_RollingStatistics 2)) = 1"
    by (simp_all add: updates_Cons update_def new_RollingStatistics_def Let_def)
  have fill: "mean (update 3 (updates [1] (new_RollingStatistics 2))) = 2 \<and>
   variance (update 3 (updates [1] (new_RollingStatistics 2))) = 1"
    using update_two_phase [where w = 2 and xs = "[1]" and x = 3]
    by (simp add: pop_mean_def pop_variance_def sum_sq_dev_def)
  have steady: "mean (update 5 (updates [1, 3] (new_RollingStatistics 2))) = 4 \<and>
   variance (update 5 (updates [1, 3] (new_RollingStatistics 2))) = 7 / 3"
    using update_two_phase [where w = 2 and xs = "[1, 3]" and x = 5] s2
    by (simp add: power2_eq_square)
  show ?thesis using fill steady by simp
qed


subsection \<open>SignalGenerator: the state machine\<close>

text \<open>
  With a negative threshold both entry tests of the \<open>FLAT\<close> state can hold, and the code
  takes the first: at \<open>\<theta> = - 1\<close> and \<open>z = 0\<close> the generator goes \<open>LONG\<close> although
  \<open>z > \<theta>\<close>. The specification leaves \<open>\<theta> \<le> 0\<close> undefined.
\<close>

lemma generate_negative_threshold:
  "zscore 0 ready_unit_stats = 0 \<and>
   generate 0 ready_unit_stats (new_SignalGenerator (- 1)) =
     (LONG, \<lparr>threshold = - 1, currentSignal = LONG, lastZScore = 0\<rparr>)"
  by (simp add: generate_def zscore_def stddev_def isReady_def ready_unit_stats_def
      new_SignalGenerator_def)

text \<open>
  Claim C3: \<open>generate\<close> is the three-state machine of the specification. For a
  threshold that is not negative (the specification takes it positive): when the
  statistics are not ready the call returns \<open>FLAT\<close> and the generator is unchanged;
  when they are ready, with \<open>z\<close> the z-score of the price, the stored signal moves
  from \<open>FLAT\<close> to \<open>LONG\<close> iff \<open>z < - \<theta>\<close> and to \<open>SHORT\<close> iff \<open>z > \<theta>\<close>, from
  \<open>LONG\<close> to \<open>FLAT\<close> iff \<open>z \<ge> 0\<close>, from \<open>SHORT\<close> to \<open>FLAT\<close> iff \<open>z \<le> 0\<close>, and stays
  otherwise; \<open>LONG\<close> never becomes \<open>SHORT\<close> nor \<open>SHORT\<close> \<open>LONG\<close> in one call, and the
  signal returned is the stored one.
\<close>

theorem generate_state_machine:
  fixes price :: real and stats :: RollingStatistics and g :: SignalGenerator
  defines "z \<equiv> zscore price stats"
  defines "c \<equiv> currentSignal g"
  defines "c' \<equiv> currentSignal (snd (generate price stats g))"
  assumes th: "0 \<le> threshold g"
  shows "(\<not> isReady stats \<longrightarrow> generate price stats g = (FLAT, g)) \<and>
         (isReady stats \<longrightarrow>
            fst (generate price stats g) = c' \<and>
            threshold (snd (generate price stats g)) = threshold g \<and>
            (c = FLAT \<longrightarrow> (c' = LONG \<longleftrightarrow> z < - threshold g) \<and>
                            (c' = SHORT \<longleftrightarrow> z > threshold g) \<and>
                            (c' = FLAT \<longleftrightarrow> \<not> z < - threshold g \<and> \<not> z > threshold g)) \<and>
            (c = LONG \<longrightarrow> (c' = FLAT \<longleftrightarrow> z \<ge> 0) \<and> (c' = LONG \<longleftrightarrow> z < 0) \<and> c' \<noteq> SHORT) \<and>
            (c = SHORT \<longrightarrow> (c' = FLAT \<longleftrightarrow> z \<le> 0) \<and> (c' = SHORT \<longleftrightarrow> z > 0) \<and> c' \<noteq> LONG))"
  using th unfolding z_def c_def c'_def
  by (cases "currentSignal g") (auto simp: generate_def Let_def)

theorem generate_state_machine_witness:
  "(0::real) \<le> 5 / 2 \<and> isReady ready_unit_stats \<and>
   zscore (- 3) ready_unit_stats = - 3 \<and>
   currentSignal (snd (generate (- 3) ready_unit_stats (new_SignalGenerator (5 / 2)))) = LONG \<and>
   generate 7 (new_RollingStatistics 4) (new_SignalGenerator (5 / 2)) = (FLAT, new_SignalGenerator (5 / 2))"
proof -
  have r: "isReady ready_unit_stats" by (simp add: isReady_def ready_unit_stats_def)
  have z: "zscore (- 3) ready_unit_stats = - 3"
    by (simp add: zscore_def stddev_def ready_unit_stats_def)
  have n: "\<not> isReady (new_RollingStatistics 4)"
    by (simp add: isReady_def new_RollingStatistics_def)
  have 1: "currentSignal (snd (generate (- 3) ready_unit_stats (new_SignalGenerator (5 / 2)))) = LONG"
    using generate_state_machine [where g = "new_SignalGenerator (5 / 2)"
        and stats = ready_unit_stats and price = "- 3"] r z
    by (simp add: new_SignalGenerator_def)
  have 2: "generate 7 (new_RollingStatistics 4) (new_SignalGenerator (5 / 2)) = (FLAT, new_SignalGenerator (5 / 2))"
    using generate_state_machine [where g = "new_SignalGenerator (5 / 2)"
        and stats = "new_RollingStatistics 4" and price = 7] n
    by (simp add: new_SignalGenerator_def)
  show ?thesis using r z 1 2 by simp
qed

subsection \<open>MarketDataReader: restart and malformed input\<close>

lemma skip_header_data [simp]: "data (skip_header r) = data r"
  by (simp add: skip_header_def split: option.splits)

lemma reset_data [simp]: "data (reset r) = data r"
  by (simp add: reset_def)

lemma reset_eq_new:
  assumes "data r = data (new_MarketDataReader file)"
  shows "reset r = new_MarketDataReader file"
proof -
  have "r\<lparr>position := 0\<rparr> = \<lparr>data = data (new_MarketDataReader file), position = 0\<rparr>"
    using assms by (cases r) simp
  then show ?thesis
    by (simp add: reset_def new_MarketDataReader_def)
qed

lemma iterate_data_aux:
  "(case iterate stod r of Inl e \<Rightarrow> True | Inr (ticks, r') \<Rightarrow> data r' = data r)"
proof (induction stod r rule: iterate.induct)
  case (1 stod r)
  show ?case
  proof (cases "next_tick stod r")
    case (Inl e)
    then show ?thesis by (simp add: iterate.simps [of stod r])
  next
    case (Inr p)
    obtain res r1 where p: "p = (res, r1)" by (cases p)
    have d: "data r1 = data r" using next_tick_position(1) [of stod r res r1] Inr p by simp
    show ?thesis
    proof (cases res)
      case None
      with Inr p d show ?thesis by (simp add: iterate.simps [of stod r])
    next
      case (Some tick)
      with "1.IH" [of p res r1 tick] Inr p d show ?thesis
        by (simp add: iterate.simps [of stod r] split: sum.splits prod.splits)
    qed
  qed
qed

lemma iterate_data: "iterate stod r = Inr (ticks, r') \<Longrightarrow> data r' = data r"
  using iterate_data_aux [where stod = stod and r = r] by simp

lemmas reader_eval = new_MarketDataReader_def skip_header_def memchr_def LF_def CR_def
  parseLine_def getline_def stoll_def stod_decimal_def strip_sign_def isspace_def isdigit_def
  decimal_def exponent_part_def Let_def newline_offset_def trim_cr_def next_tick.simps iterate.simps

lemma iterate_three_ticks:
  "iterate stod_decimal (new_MarketDataReader (Some three_ticks)) =
     Inr ([\<lparr>timestamp = 1000000, bid = 18001 / 4, ask = 9001 / 2, volume = 100\<rparr>,
           \<lparr>timestamp = 2000000, bid = 18003 / 4, ask = 4501, volume = 200\<rparr>,
           \<lparr>timestamp = 3000000, bid = 18005 / 4, ask = 9003 / 2, volume = 150\<rparr>],
          \<lparr>data = Some three_ticks, position = 109\<rparr>)"
  unfolding three_ticks_def by (simp add: reader_eval)

text \<open>
  Claim C9: after a full iteration, \<open>reset\<close> followed by a second full iteration
  delivers the same ticks as the first. \<open>reset\<close> puts the reader back into the state
  the constructor left it in: the cursor just past the header, the mapping untouched.
  The hypothesis is that the first iteration ends without an exception.
\<close>

theorem reset_roundtrip:
  assumes "iterate stod (new_MarketDataReader file) = Inr (ticks, r')"
  shows "reset r' = new_MarketDataReader file \<and>
         data (reset r') = data r' \<and>
         iterate stod (reset r') = Inr (ticks, r')"
proof -
  have d: "data r' = data (new_MarketDataReader file)"
    using iterate_data [OF assms] .
  then have eq: "reset r' = new_MarketDataReader file" by (rule reset_eq_new)
  have "iterate stod (reset r') = Inr (ticks, r')"
    unfolding eq by (rule assms)
  with eq d show ?thesis by simp
qed

theorem reset_roundtrip_witness:
  "iterate stod_decimal (reset \<lparr>data = Some three_ticks, position = 109\<rparr>) =
     Inr ([\<lparr>timestamp = 1000000, bid = 18001 / 4, ask = 9001 / 2, volume = 100\<rparr>,
           \<lparr>timestamp = 2000000, bid = 18003 / 4, ask = 4501, volume = 200\<rparr>,
           \<lparr>timestamp = 3000000, bid = 18005 / 4, ask = 9003 / 2, volume = 150\<rparr>],
          \<lparr>data = Some three_ticks, position = 109\<rparr>)"
  using reset_roundtrip [OF iterate_three_ticks] by blast

text \<open>
  What the reader does skip: a line with fewer than four fields whose fields are
  numeric, and an empty line that ends in CR LF. A last line without a newline is read.
\<close>

lemma iterate_short_and_crlf_lines:
  "iterate stod_decimal (new_MarketDataReader (Some short_and_crlf_lines)) =
     Inr ([\<lparr>timestamp = 1000000, bid = 18001 / 4, ask = 9001 / 2, volume = 100\<rparr>],
          \<lparr>data = Some short_and_crlf_lines, position = 62\<rparr>)"
  unfolding short_and_crlf_lines_def by (simp add: reader_eval)

text \<open>
  Claim C1: \<open>next\<close> delivers the records of the valid lines in file order, skips
  blank and malformed lines silently and never aborts the stream.

  The code does not do this. On the file of the repository's own test on malformed
  lines, \<open>std::stoll\<close> throws \<open>std::invalid_argument\<close> at the token \<open>invalid_line\<close>
  and the exception leaves \<open>next\<close>. On a file with an empty line between two records,
  \<open>next\<close> returns \<open>false\<close> at the empty line (\<open>nl <= current\<close>) without moving the
  cursor, so the second record is never delivered.
\<close>

theorem iterate_malformed_or_blank:
  "iterate stod_decimal (new_MarketDataReader (Some malformed_lines)) = Inl InvalidArgument \<and>
   iterate stod_decimal (new_MarketDataReader (Some blank_line_inside)) =
     Inr ([\<lparr>timestamp = 1000000, bid = 18001 / 4, ask = 9001 / 2, volume = 100\<rparr>],
          \<lparr>data = Some blank_line_inside, position = 53\<rparr>)"
  unfolding malformed_lines_def blank_line_inside_def by (simp add: reader_eval)

subsection \<open>The loop of run as a fold over the ticks\<close>

lemma process_ticks_Nil [simp]: "process_ticks [] st = st"
  by (simp add: process_ticks_def)

lemma process_ticks_Cons [simp]: "process_ticks (t # ts) st = process_ticks ts (process_tick t st)"
  by (simp add: process_ticks_def)

lemma process_ticks_append: "process_ticks (ts @ us) st = process_ticks us (process_ticks ts st)"
  by (simp add: process_ticks_def)

lemma process_tick_reader_update:
  "process_tick t (st\<lparr>reader := r\<rparr>) = (process_tick t st)\<lparr>reader := r\<rparr>"
  by (simp add: process_tick_def Let_def split: prod.splits)

lemma process_ticks_reader_update:
  "process_ticks ts (st\<lparr>reader := r\<rparr>) = (process_ticks ts st)\<lparr>reader := r\<rparr>"
  by (induction ts arbitrary: st) (simp_all add: process_tick_reader_update)

lemma process_ticks_reader [simp]: "reader (process_ticks ts st) = reader st"
  by (induction ts arbitrary: st) simp_all

lemma run_loop_iterate:
  "run_loop stod st =
     (case iterate stod (reader st) of
        Inl e \<Rightarrow> Inl e
      | Inr (ticks, r') \<Rightarrow> Inr ((process_ticks ticks st)\<lparr>reader := r'\<rparr>))"
proof (induction stod st rule: run_loop.induct)
  case (1 stod st)
  show ?case
  proof (cases "next_tick stod (reader st)")
    case (Inl e)
    then show ?thesis
      by (simp add: run_loop.simps [of stod st] iterate.simps [of stod "reader st"])
  next
    case (Inr p)
    obtain res r1 where p: "p = (res, r1)" by (cases p)
    show ?thesis
    proof (cases res)
      case None
      with Inr p show ?thesis
        by (simp add: run_loop.simps [of stod st] iterate.simps [of stod "reader st"])
    next
      case (Some tick)
      have "run_loop stod st = run_loop stod (process_tick tick (st\<lparr>reader := r1\<rparr>))"
        using Inr p Some by (simp add: run_loop.simps [of stod st])
      also have "\<dots> = (case iterate stod r1 of
        Inl e \<Rightarrow> Inl e
      | Inr (ticks, r') \<Rightarrow> Inr ((process_ticks ticks (process_tick tick (st\<lparr>reader := r1\<rparr>)))\<lparr>reader := r'\<rparr>))"
        using "1.IH" [of p res r1 tick] Inr p Some by simp
      also have "\<dots> = (case iterate stod (reader st) of
        Inl e \<Rightarrow> Inl e
      | Inr (ticks, r') \<Rightarrow> Inr ((process_ticks ticks st)\<lparr>reader := r'\<rparr>))"
        using Inr p Some
        by (simp add: iterate.simps [of stod "reader st"] process_tick_reader_update
            process_ticks_reader_update split: sum.splits prod.splits)
      finally show ?thesis .
    qed
  qed
qed

lemma process_tick_fields:
  "stats (process_tick t st) = update (mid t) (stats st)"
  "signalGen (process_tick t st) =
     snd (generate (mid t) (update (mid t) (stats st)) (signalGen st))"
  "backtester (process_tick t st) =
     updatePosition (mid t) (timestamp t)
       (fst (generate (mid t) (update (mid t) (stats st)) (signalGen st))) (backtester st)"
  "lastTick (process_tick t st) = Some t"
  "tickCount (process_tick t st) = tickCount st + 1"
  "endTime (process_tick t st) = timestamp t"
  "startTime (process_tick t st) = (if startTime st = 0 then timestamp t else startTime st)"
  by (simp_all add: process_tick_def Let_def split: prod.splits)

lemma run_init_fields:
  "stats (run_init rd th b) = new_RollingStatistics 20000"
  "signalGen (run_init rd th b) = new_SignalGenerator th"
  "currentPosition (backtester (run_init rd th b)) = FLAT"
  "lastTick (run_init rd th b) = None"
  "startTime (run_init rd th b) = 0"
  "endTime (run_init rd th b) = 0"
  "tickCount (run_init rd th b) = 0"
  by (simp_all add: run_init_def)

lemma run_init_reader [simp]: "reader (run_init rd th b) = rd"
  by (simp add: run_init_def)


lemma run_Inr:
  assumes "run stod file th b = Inr (m, b')"
    and "iterate stod (new_MarketDataReader file) = Inr (ticks, r')"
  defines "st \<equiv> (process_ticks ticks (run_init (new_MarketDataReader file) th b))\<lparr>reader := r'\<rparr>"
  shows "run_loop stod (run_init (new_MarketDataReader file) th b) = Inr st"
    and "b' = force_close st"
    and "m = calculateMetrics (startTime st) (endTime st) (tickCount st) b'"
proof -
  show 1: "run_loop stod (run_init (new_MarketDataReader file) th b) = Inr st"
    using assms(2) by (simp add: run_loop_iterate run_init_def st_def)
  from assms(1) 1 show "b' = force_close st"
    by (auto simp: run_def Let_def split: if_splits)
  from assms(1) 1 show "m = calculateMetrics (startTime st) (endTime st) (tickCount st) b'"
    by (auto simp: run_def Let_def split: if_splits)
qed

lemma closePosition_fields:
  assumes "currentPosition b \<noteq> FLAT"
  shows "trades (closePosition p ts b) =
           trades b @ [\<lparr>entryTime = entryTime_bt b, exitTime = ts, entryPrice = entryPrice_bt b,
             exitPrice = getFillPrice p (if currentPosition b = LONG then SHORT else LONG) b,
             direction = currentPosition b,
             pnl = equity (closePosition p ts b) - equity b,
             duration = sub_int64 ts (entryTime_bt b)\<rparr>]"
    and "currentPosition (closePosition p ts b) = FLAT"
    and "equityCurve (closePosition p ts b) = equityCurve b"
    and "equityTimestamps (closePosition p ts b) = equityTimestamps b"
    and "peakEquity (closePosition p ts b) = peakEquity b"
    and "commission (closePosition p ts b) = commission b"
    and "slippage (closePosition p ts b) = slippage b"
  using assms by (simp_all add: closePosition_def Let_def getFillPrice_def)

lemma closePosition_FLAT [simp]: "currentPosition b = FLAT \<Longrightarrow> closePosition p ts b = b"
  by (simp add: closePosition_def)

lemma updatePosition_same [simp]: "updatePosition p ts (currentPosition b) b = b"
  by (simp add: updatePosition_def)

lemma updatePosition_fields:
  "currentPosition (updatePosition p ts sig b) = sig"
  "trades (updatePosition p ts sig b) =
     (if sig \<noteq> currentPosition b then trades (closePosition p ts b) else trades b)"
  "entryTime_bt (updatePosition p ts sig b) =
     (if sig \<noteq> currentPosition b \<and> sig \<noteq> FLAT then ts else entryTime_bt b)"
  "equityTimestamps (updatePosition p ts sig b) =
     (if sig \<noteq> currentPosition b then equityTimestamps b @ [ts] else equityTimestamps b)"
  "equityCurve (updatePosition p ts sig b) =
     (if sig \<noteq> currentPosition b then equityCurve b @ [equity (updatePosition p ts sig b)]
      else equityCurve b)"
  "commission (updatePosition p ts sig b) = commission b"
  "slippage (updatePosition p ts sig b) = slippage b"
  by (auto simp: updatePosition_def Let_def closePosition_def)

lemma force_close_reader [simp]: "force_close (st\<lparr>reader := r\<rparr>) = force_close st"
  by (simp add: force_close_def split: option.splits)

lemma generate_not_ready: "\<not> isReady s \<Longrightarrow> generate p s g = (FLAT, g)"
  by (simp add: generate_def)

lemma generate_enter_long:
  assumes "isReady s" "currentSignal g = FLAT" "zscore p s < - threshold g"
  shows "fst (generate p s g) = LONG" "currentSignal (snd (generate p s g)) = LONG"
    "threshold (snd (generate p s g)) = threshold g"
  using assms by (simp_all add: generate_def Let_def)

lemma generate_stay_long:
  assumes "isReady s" "currentSignal g = LONG" "zscore p s < 0"
  shows "fst (generate p s g) = LONG" "currentSignal (snd (generate p s g)) = LONG"
    "threshold (snd (generate p s g)) = threshold g"
  using assms by (simp_all add: generate_def Let_def)

lemma generate_exit_long:
  assumes "isReady s" "currentSignal g = LONG" "0 \<le> zscore p s"
  shows "fst (generate p s g) = FLAT"
  using assms by (simp add: generate_def Let_def)

lemma zscore_below:
  assumes v: "(1 / 10 ^ 10)\<^sup>2 < variance s" "variance s \<le> 1"
    and x: "x - mean s < - th" and th: "0 \<le> th"
  shows "zscore x s < - th"
proof -
  let ?sd = "sqrt (variance s)"
  have lo: "1 / 10 ^ 10 < ?sd" using v(1) by (rule real_less_rsqrt)
  then have pos: "0 < ?sd" by (rule less_trans [rotated]) simp
  have hi: "?sd \<le> 1" using v(2) by simp
  have "th * ?sd \<le> th * 1" using th hi by (rule mult_left_mono [rotated])
  then have "x - mean s < - th * ?sd" using x by simp
  then have "(x - mean s) / ?sd < - th" using pos by (simp add: pos_divide_less_eq)
  then show ?thesis using lo by (simp add: zscore_def stddev_def)
qed

lemma zscore_negative:
  assumes v: "(1 / 10 ^ 10)\<^sup>2 < variance s" and x: "x < mean s"
  shows "zscore x s < 0"
proof -
  let ?sd = "sqrt (variance s)"
  have lo: "1 / 10 ^ 10 < ?sd" using v(1) by (rule real_less_rsqrt)
  then have pos: "0 < ?sd" by (rule less_trans [rotated]) simp
  have "(x - mean s) / ?sd < 0" using pos x by (simp add: divide_neg_pos)
  then show ?thesis using lo by (simp add: zscore_def stddev_def)
qed

lemma zscore_nonneg:
  assumes "mean s \<le> x"
  shows "0 \<le> zscore x s"
proof (cases "1 / 10 ^ 10 < sqrt (variance s)")
  case True
  then have "0 < sqrt (variance s)" by (rule less_trans [rotated]) simp
  with assms have "0 \<le> (x - mean s) / sqrt (variance s)" by simp
  with True show ?thesis by (simp add: zscore_def stddev_def)
next
  case False
  then show ?thesis by (simp add: zscore_def stddev_def)
qed

subsection \<open>Reading the long files\<close>

lemma next_tick_line:
  assumes d: "data r = Some (pre @ line @ LF # rest)" and p: "position r = length pre"
    and nolf: "LF \<notin> set line" and ne: "line \<noteq> []" and nocr: "last line \<noteq> CR"
    and parse: "parseLine stod line = Inr (Some t)"
  shows "next_tick stod r = Inr (Some t, r\<lparr>position := length pre + length line + 1\<rparr>)"
proof -
  let ?cur = "line @ LF # rest"
  have cur: "drop (position r) (pre @ line @ LF # rest) = ?cur" using p by simp
  have tw: "takeWhile (\<lambda>x. x \<noteq> LF) ?cur = line"
    using nolf by (subst takeWhile_append2) auto
  have nl: "newline_offset ?cur = length line"
    by (simp add: newline_offset_def memchr_def tw)
  have "?cur ! (length line - 1) = last line"
    using ne by (simp add: nth_append last_conv_nth)
  then have tr: "trim_cr ?cur (length line) = length line"
    using nocr by (simp add: trim_cr_def)
  show ?thesis
    using ne parse
    by (subst next_tick.simps) (simp add: d p nl tr Let_def)
qed

lemma iterate_lines:
  assumes "\<forall>l\<in>set ls. LF \<notin> set l \<and> l \<noteq> [] \<and> last l \<noteq> CR \<and> parseLine stod l = Inr (Some (f l))"
  shows "iterate stod \<lparr>data = Some (pre @ concat (map (\<lambda>l. l @ [LF]) ls)), position = length pre\<rparr> =
           Inr (map f ls,
                \<lparr>data = Some (pre @ concat (map (\<lambda>l. l @ [LF]) ls)),
                 position = length (pre @ concat (map (\<lambda>l. l @ [LF]) ls))\<rparr>)"
  using assms
proof (induction ls arbitrary: pre)
  case Nil
  show ?case
    by (subst iterate.simps) (simp add: next_tick.simps)
next
  case (Cons l ls)
  let ?d = "pre @ concat (map (\<lambda>l. l @ [LF]) (l # ls))"
  let ?r = "\<lparr>data = Some ?d, position = length pre\<rparr>"
  have d: "?d = pre @ l @ LF # concat (map (\<lambda>l. l @ [LF]) ls)" by simp
  have l: "LF \<notin> set l" "l \<noteq> []" "last l \<noteq> CR" "parseLine stod l = Inr (Some (f l))"
    using Cons.prems by simp_all
  have nt: "next_tick stod ?r = Inr (Some (f l), ?r\<lparr>position := length pre + length l + 1\<rparr>)"
    by (rule next_tick_line [OF _ _ l]) (simp_all only: d MarketDataReader.simps)
  have d': "?d = (pre @ l @ [LF]) @ concat (map (\<lambda>l. l @ [LF]) ls)" by simp
  have IH: "iterate stod \<lparr>data = Some ?d, position = length (pre @ l @ [LF])\<rparr> =
     Inr (map f ls, \<lparr>data = Some ?d, position = length ?d\<rparr>)"
    using Cons.IH [of "pre @ l @ [LF]"] Cons.prems unfolding d' by simp
  have pos: "length pre + length l + 1 = length (pre @ l @ [LF])" by simp
  show ?case
    apply (subst iterate.simps)
    apply (simp only: nt sum.case prod.case option.case MarketDataReader.simps pos IH)
    apply simp
    done
qed

lemma new_reader_csv_file:
  "new_MarketDataReader (Some (csv_file ls)) =
     \<lparr>data = Some (csv_file ls), position = length (header_line @ [LF])\<rparr>"
  by (simp add: new_MarketDataReader_def skip_header_def memchr_def csv_file_def header_line_def
      LF_def)

lemma iterate_csv_file:
  assumes "\<forall>l\<in>set ls. LF \<notin> set l \<and> l \<noteq> [] \<and> last l \<noteq> CR \<and> parseLine stod l = Inr (Some (f l))"
  shows "iterate stod (new_MarketDataReader (Some (csv_file ls))) =
           Inr (map f ls, \<lparr>data = Some (csv_file ls), position = length (csv_file ls)\<rparr>)"
proof -
  have c: "csv_file ls = (header_line @ [LF]) @ concat (map (\<lambda>l. l @ [LF]) ls)"
    by (simp add: csv_file_def)
  show ?thesis
    unfolding new_reader_csv_file
    using iterate_lines [OF assms, of "header_line @ [LF]"]
    unfolding c [symmetric] .
qed

lemma csv_file_valid: "isValid (new_MarketDataReader (Some (csv_file ls)))"
  unfolding new_reader_csv_file by (simp add: isValid_def size_r_def csv_file_def)

lemma run_csv_file:
  fixes th :: real and b :: Backtester
  assumes "iterate stod (new_MarketDataReader (Some (csv_file ls))) = Inr (ticks, r')"
  defines "st \<equiv> process_ticks ticks (run_init (new_MarketDataReader (Some (csv_file ls))) th b)"
  shows "run stod (Some (csv_file ls)) th b =
           Inr (calculateMetrics (startTime st) (endTime st) (tickCount st) (force_close st),
                force_close st)"
  using assms(1) csv_file_valid [of ls]
  by (simp add: run_def run_loop_iterate st_def Let_def)

lemmas parse_eval = parseLine_def getline_def stoll_def stod_decimal_def strip_sign_def
  isspace_def isdigit_def decimal_def exponent_part_def Let_def

lemma parse_lines:
  "parseLine stod_decimal ''1,100,100,1'' = Inr (Some tick_calm)"
  "parseLine stod_decimal ''2,50,50,1'' = Inr (Some tick_drop)"
  "parseLine stod_decimal ''3,60,60,1'' = Inr (Some tick_up)"
  "parseLine stod_decimal ''3,100,100,1'' = Inr (Some tick_back)"
  by (simp_all add: parse_eval tick_calm_def tick_drop_def tick_up_def tick_back_def)

lemma line_ticks:
  "line_tick ''1,100,100,1'' = tick_calm"
  "line_tick ''2,50,50,1'' = tick_drop"
  "line_tick ''3,60,60,1'' = tick_up"
  "line_tick ''3,100,100,1'' = tick_back"
  by (simp_all add: line_tick_def)

lemma good_lines:
  assumes "l \<in> {''1,100,100,1'', ''2,50,50,1'', ''3,60,60,1'', ''3,100,100,1''}"
  shows "LF \<notin> set l \<and> l \<noteq> [] \<and> last l \<noteq> CR \<and> parseLine stod_decimal l = Inr (Some (line_tick l))"
proof -
  have L1: "LF \<notin> set ''1,100,100,1'' \<and> ''1,100,100,1'' \<noteq> [] \<and> last ''1,100,100,1'' \<noteq> CR \<and>
      parseLine stod_decimal ''1,100,100,1'' = Inr (Some (line_tick ''1,100,100,1''))"
    by (simp add: LF_def CR_def parse_lines line_ticks)
  have L2: "LF \<notin> set ''2,50,50,1'' \<and> ''2,50,50,1'' \<noteq> [] \<and> last ''2,50,50,1'' \<noteq> CR \<and>
      parseLine stod_decimal ''2,50,50,1'' = Inr (Some (line_tick ''2,50,50,1''))"
    by (simp add: LF_def CR_def parse_lines line_ticks)
  have L3: "LF \<notin> set ''3,60,60,1'' \<and> ''3,60,60,1'' \<noteq> [] \<and> last ''3,60,60,1'' \<noteq> CR \<and>
      parseLine stod_decimal ''3,60,60,1'' = Inr (Some (line_tick ''3,60,60,1''))"
    by (simp add: LF_def CR_def parse_lines line_ticks)
  have L4: "LF \<notin> set ''3,100,100,1'' \<and> ''3,100,100,1'' \<noteq> [] \<and> last ''3,100,100,1'' \<noteq> CR \<and>
      parseLine stod_decimal ''3,100,100,1'' = Inr (Some (line_tick ''3,100,100,1''))"
    by (simp add: LF_def CR_def parse_lines line_ticks)
  from assms consider "l = ''1,100,100,1''" | "l = ''2,50,50,1''" | "l = ''3,60,60,1''"
    | "l = ''3,100,100,1''" by blast
  then show ?thesis
  proof cases
    case 1
    show ?thesis unfolding 1 by (rule L1)
  next
    case 2
    show ?thesis unfolding 2 by (rule L2)
  next
    case 3
    show ?thesis unfolding 3 by (rule L3)
  next
    case 4
    show ?thesis unfolding 4 by (rule L4)
  qed
qed

lemma iterate_known_lines:
  assumes "set ls \<subseteq> {''1,100,100,1'', ''2,50,50,1'', ''3,60,60,1'', ''3,100,100,1''}"
  shows "iterate stod_decimal (new_MarketDataReader (Some (csv_file ls))) =
           Inr (map line_tick ls, \<lparr>data = Some (csv_file ls), position = length (csv_file ls)\<rparr>)"
proof (rule iterate_csv_file)
  show "\<forall>l\<in>set ls. LF \<notin> set l \<and> l \<noteq> [] \<and> last l \<noteq> CR \<and>
      parseLine stod_decimal l = Inr (Some (line_tick l))"
  proof
    fix l assume "l \<in> set ls"
    with assms have "l \<in> {''1,100,100,1'', ''2,50,50,1'', ''3,60,60,1'', ''3,100,100,1''}" ..
    then show "LF \<notin> set l \<and> l \<noteq> [] \<and> last l \<noteq> CR \<and>
      parseLine stod_decimal l = Inr (Some (line_tick l))" by (rule good_lines)
  qed
qed

lemma iterate_entry_on_last_tick:
  "iterate stod_decimal (new_MarketDataReader (Some entry_on_last_tick)) =
     Inr (replicate 19999 tick_calm @ [tick_drop],
          \<lparr>data = Some entry_on_last_tick, position = length entry_on_last_tick\<rparr>)"
proof -
  let ?ls = "replicate 19999 ''1,100,100,1'' @ [''2,50,50,1'']"
  have s: "set ?ls \<subseteq> {''1,100,100,1'', ''2,50,50,1'', ''3,60,60,1'', ''3,100,100,1''}"
    by (simp only: set_append set_replicate_conv_if list.set) simp
  have m: "map line_tick ?ls = replicate 19999 tick_calm @ [tick_drop]"
    by (simp only: map_append map_replicate list.map) (simp add: line_ticks)
  from iterate_known_lines [OF s] show ?thesis
    unfolding entry_on_last_tick_def m .
qed

lemma iterate_open_at_end:
  "iterate stod_decimal (new_MarketDataReader (Some open_at_end)) =
     Inr (replicate 19999 tick_calm @ [tick_drop, tick_up],
          \<lparr>data = Some open_at_end, position = length open_at_end\<rparr>)"
proof -
  let ?ls = "replicate 19999 ''1,100,100,1'' @ [''2,50,50,1'', ''3,60,60,1'']"
  have s: "set ?ls \<subseteq> {''1,100,100,1'', ''2,50,50,1'', ''3,60,60,1'', ''3,100,100,1''}"
    by (simp only: set_append set_replicate_conv_if list.set) simp
  have m: "map line_tick ?ls = replicate 19999 tick_calm @ [tick_drop, tick_up]"
    by (simp only: map_append map_replicate list.map) (simp add: line_ticks)
  from iterate_known_lines [OF s] show ?thesis
    unfolding open_at_end_def m .
qed

lemma iterate_round_trip:
  "iterate stod_decimal (new_MarketDataReader (Some round_trip)) =
     Inr (replicate 19999 tick_calm @ [tick_drop, tick_back],
          \<lparr>data = Some round_trip, position = length round_trip\<rparr>)"
proof -
  let ?ls = "replicate 19999 ''1,100,100,1'' @ [''2,50,50,1'', ''3,100,100,1'']"
  have s: "set ?ls \<subseteq> {''1,100,100,1'', ''2,50,50,1'', ''3,60,60,1'', ''3,100,100,1''}"
    by (simp only: set_append set_replicate_conv_if list.set) simp
  have m: "map line_tick ?ls = replicate 19999 tick_calm @ [tick_drop, tick_back]"
    by (simp only: map_append map_replicate list.map) (simp add: line_ticks)
  from iterate_known_lines [OF s] show ?thesis
    unfolding round_trip_def m .
qed

lemma iterate_one_tick:
  "iterate stod_decimal (new_MarketDataReader (Some one_tick)) =
     Inr ([first_tick], \<lparr>data = Some one_tick, position = 53\<rparr>)"
  unfolding one_tick_def first_tick_def by (simp add: reader_eval)

lemma one_tick_valid: "isValid (new_MarketDataReader (Some one_tick))"
  by (simp add: one_tick_def isValid_def size_r_def new_MarketDataReader_def skip_header_def
      memchr_def LF_def)

subsection \<open>Running the files\<close>

lemma mid_ticks [simp]:
  "mid tick_calm = 100" "mid tick_drop = 50" "mid tick_up = 60" "mid tick_back = 100"
  by (simp_all add: mid_def tick_calm_def tick_drop_def tick_up_def tick_back_def)

lemma timestamp_ticks [simp]:
  "timestamp tick_calm = 1" "timestamp tick_drop = 2" "timestamp tick_up = 3"
  "timestamp tick_back = 3"
  by (simp_all add: tick_calm_def tick_drop_def tick_up_def tick_back_def)

lemma calm_step:
  assumes c: "calm_state n st0 st" and n: "n < 19999"
    and f: "currentPosition (backtester st0) = FLAT"
  shows "calm_state (Suc n) st0 (process_tick tick_calm st)"
proof -
  let ?s = "stats st"
  let ?s' = "update 100 ?s"
  from c have cnt: "count ?s = n" and w: "windowSize ?s = 20000" and a: "alpha ?s = 2 / 20001"
    and bt: "backtester st = backtester st0" and sg: "signalGen st = signalGen st0"
    and tc: "tickCount st = n"
    by (simp_all add: calm_state_def)
  have nr: "\<not> isReady ?s'" using cnt w n by (simp add: isReady_def)
  have g: "generate 100 ?s' (signalGen st) = (FLAT, signalGen st)"
    by (rule generate_not_ready [OF nr])
  have m: "mean ?s' = 100 \<and> m2 ?s' = 0 \<and> variance ?s' = 0"
  proof (cases "n = 0")
    case True
    then show ?thesis using update_first [of ?s 100] cnt w by simp
  next
    case False
    with c have "mean ?s = 100" "m2 ?s = 0" by (simp_all add: calm_state_def)
    then show ?thesis using update_welford [of ?s 100] cnt w n False by simp
  qed
  have st: "startTime (process_tick tick_calm st) = 1"
    using c by (cases "n = 0") (simp_all add: process_tick_fields calm_state_def)
  show ?thesis
    unfolding calm_state_def
    using m st cnt w a bt sg tc f g
    by (simp add: process_tick_fields updatePosition_def)
qed

lemma replicate_snoc: "replicate (Suc n) x = replicate n x @ [x]"
  by (simp add: replicate_append_same)

lemma calm_phase:
  assumes "n \<le> 19999" and f: "currentPosition (backtester st0) = FLAT"
    and 0: "calm_state 0 st0 st0"
  shows "calm_state n st0 (process_ticks (replicate n tick_calm) st0)"
  using assms(1)
proof (induction n)
  case 0
  show ?case using assms(3) by simp
next
  case (Suc n)
  then have "calm_state n st0 (process_ticks (replicate n tick_calm) st0)" by simp
  from calm_step [OF this _ f] Suc.prems
  show ?case
    by (simp only: replicate_snoc process_ticks_append process_ticks_Cons process_ticks_Nil)
qed

lemma calm_state_init: "calm_state 0 (run_init rd th b) (run_init rd th b)"
  by (simp add: calm_state_def run_init_def new_RollingStatistics_def)

lemma run_init_backtester:
  "backtester (run_init rd th (new_Backtester (21 / 10) 1 u)) = armed_backtester u"
  by (simp add: run_init_def new_Backtester_def armed_backtester_def)

lemma open_long: "updatePosition 50 2 LONG (armed_backtester s) = long_backtester s"
  by (simp add: updatePosition_def armed_backtester_def long_backtester_def getFillPrice_def Let_def)

lemma close_on_entry_tick: "closePosition 50 2 (long_backtester s) = closed_on_entry_tick s"
  by (simp add: closePosition_def long_backtester_def closed_on_entry_tick_def getFillPrice_def
      sub_int64_def Let_def)

lemma close_after_rise: "closePosition 60 3 (long_backtester s) = closed_after_rise s"
  by (simp add: closePosition_def long_backtester_def closed_after_rise_def getFillPrice_def
      sub_int64_def Let_def)

lemma close_in_loop: "updatePosition 100 3 FLAT (long_backtester 0) = closed_in_loop"
  by (simp add: updatePosition_def closePosition_def long_backtester_def closed_in_loop_def
      getFillPrice_def sub_int64_def Let_def)

lemma drop_step:
  assumes c: "calm_state 19999 st0 st"
    and b: "backtester st0 = armed_backtester s"
    and g: "signalGen st0 = new_SignalGenerator (5 / 2)"
  shows "entered_state s (process_tick tick_drop st)"
proof -
  let ?s = "stats st"
  let ?s' = "update 50 ?s"
  from c have cnt: "count ?s = 19999" and w: "windowSize ?s = 20000" and a: "alpha ?s = 2 / 20001"
    and bt: "backtester st = backtester st0" and sg: "signalGen st = signalGen st0"
    and tc: "tickCount st = 19999" and m: "mean ?s = 100" "m2 ?s = 0" and st: "startTime st = 1"
    by (simp_all add: calm_state_def)
  have u: "mean ?s' = 39999 / 400" "variance ?s' = 19999 / 160000"
    using update_welford [of ?s 50] cnt w m by simp_all
  have r: "isReady ?s'" using cnt w by (simp add: isReady_def)
  have z: "zscore 50 ?s' < - (5 / 2)"
    by (rule zscore_below) (simp_all add: u power2_eq_square)
  have gs: "currentSignal (signalGen st) = FLAT" "threshold (signalGen st) = 5 / 2"
    using sg g by (simp_all add: new_SignalGenerator_def)
  note G = generate_enter_long [OF r gs(1), of 50, unfolded gs(2), OF z]
  show ?thesis
    unfolding entered_state_def
    using G u cnt w a bt b tc st open_long
    by (simp add: process_tick_fields)
qed

lemma rise_step:
  assumes e: "entered_state s st"
  shows "held_state s (process_tick tick_up st)"
proof -
  let ?s = "stats st"
  let ?s' = "update 60 ?s"
  from e have cnt: "count ?s = 20000" and w: "windowSize ?s = 20000" and a: "alpha ?s = 2 / 20001"
    and bt: "backtester st = long_backtester s" and gs: "currentSignal (signalGen st) = LONG"
    and tc: "tickCount st = 20000" and m: "mean ?s = 39999 / 400"
    and v: "variance ?s = 19999 / 160000" and st: "startTime st = 1"
    by (simp_all add: entered_state_def)
  have u: "mean ?s' = 2 / 20001 * 60 + (1 - 2 / 20001) * (39999 / 400)"
    "variance ?s' = max ((1 - 2 / 20001) * (19999 / 160000 + 2 / 20001 * (60 - 39999 / 400)\<^sup>2)) 0"
    using update_ewma [of ?s 60] cnt w a m v by simp_all
  have r: "isReady ?s'" using cnt w by (simp add: isReady_def)
  have z: "zscore 60 ?s' < 0"
    by (rule zscore_negative) (simp_all add: u power2_eq_square)
  note G = generate_stay_long [OF r gs z]
  have same: "updatePosition 60 3 LONG (long_backtester s) = long_backtester s"
    by (simp add: updatePosition_def long_backtester_def)
  show ?thesis
    unfolding held_state_def
    using G bt tc st same
    by (simp add: process_tick_fields)
qed

lemma back_step:
  assumes e: "entered_state 0 st"
  shows "exited_state (process_tick tick_back st)"
proof -
  let ?s = "stats st"
  let ?s' = "update 100 ?s"
  from e have cnt: "count ?s = 20000" and w: "windowSize ?s = 20000" and a: "alpha ?s = 2 / 20001"
    and bt: "backtester st = long_backtester 0" and gs: "currentSignal (signalGen st) = LONG"
    and tc: "tickCount st = 20000" and m: "mean ?s = 39999 / 400"
    and st: "startTime st = 1"
    by (simp_all add: entered_state_def)
  have u: "mean ?s' = 2 / 20001 * 100 + (1 - 2 / 20001) * (39999 / 400)"
    using update_ewma [of ?s 100] cnt w a m by simp
  have r: "isReady ?s'" using cnt w by (simp add: isReady_def)
  have z: "0 \<le> zscore 100 ?s'"
    by (rule zscore_nonneg) (simp add: u)
  note G = generate_exit_long [OF r gs z]
  show ?thesis
    unfolding exited_state_def
    using G bt tc st close_in_loop
    by (simp add: process_tick_fields)
qed

lemma entered_after_drop:
  "entered_state u (process_ticks (replicate 19999 tick_calm @ [tick_drop])
     (run_init rd (5 / 2) (new_Backtester (21 / 10) 1 u)))"
proof -
  let ?st0 = "run_init rd (5 / 2) (new_Backtester (21 / 10) 1 u)"
  have f: "currentPosition (backtester ?st0) = FLAT" by (simp add: run_init_fields)
  have c: "calm_state 19999 ?st0 (process_ticks (replicate 19999 tick_calm) ?st0)"
    by (rule calm_phase [OF _ f calm_state_init]) simp
  have "entered_state u (process_tick tick_drop (process_ticks (replicate 19999 tick_calm) ?st0))"
    by (rule drop_step [OF c run_init_backtester]) (simp add: run_init_fields)
  then show ?thesis
    by (simp only: process_ticks_append process_ticks_Cons process_ticks_Nil)
qed

lemma held_after_rise:
  "held_state u (process_ticks (replicate 19999 tick_calm @ [tick_drop, tick_up])
     (run_init rd (5 / 2) (new_Backtester (21 / 10) 1 u)))"
proof -
  let ?st0 = "run_init rd (5 / 2) (new_Backtester (21 / 10) 1 u)"
  have a: "replicate 19999 tick_calm @ [tick_drop, tick_up] =
    (replicate 19999 tick_calm @ [tick_drop]) @ [tick_up]" by simp
  show ?thesis
    unfolding a
    using rise_step [OF entered_after_drop [of u rd]]
    by (simp only: process_ticks_append [of "replicate 19999 tick_calm @ [tick_drop]"]
        process_ticks_Cons process_ticks_Nil)
qed

lemma exited_after_back:
  "exited_state (process_ticks (replicate 19999 tick_calm @ [tick_drop, tick_back])
     (run_init rd (5 / 2) (new_Backtester (21 / 10) 1 0)))"
proof -
  have a: "replicate 19999 tick_calm @ [tick_drop, tick_back] =
    (replicate 19999 tick_calm @ [tick_drop]) @ [tick_back]" by simp
  show ?thesis
    unfolding a
    using back_step [OF entered_after_drop [of 0 rd]]
    by (simp only: process_ticks_append [of "replicate 19999 tick_calm @ [tick_drop]"]
        process_ticks_Cons process_ticks_Nil)
qed

lemma force_close_entered:
  "entered_state s st \<Longrightarrow> force_close st = closed_on_entry_tick s"
  by (simp add: entered_state_def force_close_def close_on_entry_tick long_backtester_def)
     (simp add: close_on_entry_tick [unfolded long_backtester_def])

lemma force_close_held:
  "held_state s st \<Longrightarrow> force_close st = closed_after_rise s"
  by (simp add: held_state_def force_close_def long_backtester_def)
     (simp add: close_after_rise [unfolded long_backtester_def])

lemma force_close_exited:
  "exited_state st \<Longrightarrow> force_close st = closed_in_loop"
  by (simp add: exited_state_def force_close_def closed_in_loop_def)

lemma run_entry_on_last_tick:
  "run stod_decimal (Some entry_on_last_tick) (5 / 2) (new_Backtester (21 / 10) 1 u) =
     Inr (calculateMetrics 1 2 20000 (closed_on_entry_tick u), closed_on_entry_tick u)"
proof -
  note e = entered_after_drop [of u "new_MarketDataReader (Some entry_on_last_tick)"]
  have f: "startTime (process_ticks (replicate 19999 tick_calm @ [tick_drop])
     (run_init (new_MarketDataReader (Some entry_on_last_tick)) (5 / 2) (new_Backtester (21 / 10) 1 u))) = 1"
    "endTime (process_ticks (replicate 19999 tick_calm @ [tick_drop])
     (run_init (new_MarketDataReader (Some entry_on_last_tick)) (5 / 2) (new_Backtester (21 / 10) 1 u))) = 2"
    "tickCount (process_ticks (replicate 19999 tick_calm @ [tick_drop])
     (run_init (new_MarketDataReader (Some entry_on_last_tick)) (5 / 2) (new_Backtester (21 / 10) 1 u))) = 20000"
    using e by (simp_all add: entered_state_def)
  show ?thesis
    using run_csv_file [OF iterate_entry_on_last_tick [unfolded entry_on_last_tick_def],
        where th = "5 / 2" and b = "new_Backtester (21 / 10) 1 u"]
    unfolding entry_on_last_tick_def [symmetric]
    by (simp only: force_close_entered [OF e] f)
qed

lemma run_open_at_end:
  "run stod_decimal (Some open_at_end) (5 / 2) (new_Backtester (21 / 10) 1 u) =
     Inr (calculateMetrics 1 3 20001 (closed_after_rise u), closed_after_rise u)"
proof -
  note e = held_after_rise [of u "new_MarketDataReader (Some open_at_end)"]
  have f: "startTime (process_ticks (replicate 19999 tick_calm @ [tick_drop, tick_up])
     (run_init (new_MarketDataReader (Some open_at_end)) (5 / 2) (new_Backtester (21 / 10) 1 u))) = 1"
    "endTime (process_ticks (replicate 19999 tick_calm @ [tick_drop, tick_up])
     (run_init (new_MarketDataReader (Some open_at_end)) (5 / 2) (new_Backtester (21 / 10) 1 u))) = 3"
    "tickCount (process_ticks (replicate 19999 tick_calm @ [tick_drop, tick_up])
     (run_init (new_MarketDataReader (Some open_at_end)) (5 / 2) (new_Backtester (21 / 10) 1 u))) = 20001"
    using e by (simp_all add: held_state_def)
  show ?thesis
    using run_csv_file [OF iterate_open_at_end [unfolded open_at_end_def],
        where th = "5 / 2" and b = "new_Backtester (21 / 10) 1 u"]
    unfolding open_at_end_def [symmetric]
    by (simp only: force_close_held [OF e] f)
qed

lemma run_round_trip:
  "run stod_decimal (Some round_trip) (5 / 2) (new_Backtester (21 / 10) 1 0) =
     Inr (calculateMetrics 1 3 20001 closed_in_loop, closed_in_loop)"
proof -
  note e = exited_after_back [of "new_MarketDataReader (Some round_trip)"]
  have f: "startTime (process_ticks (replicate 19999 tick_calm @ [tick_drop, tick_back])
     (run_init (new_MarketDataReader (Some round_trip)) (5 / 2) (new_Backtester (21 / 10) 1 0))) = 1"
    "endTime (process_ticks (replicate 19999 tick_calm @ [tick_drop, tick_back])
     (run_init (new_MarketDataReader (Some round_trip)) (5 / 2) (new_Backtester (21 / 10) 1 0))) = 3"
    "tickCount (process_ticks (replicate 19999 tick_calm @ [tick_drop, tick_back])
     (run_init (new_MarketDataReader (Some round_trip)) (5 / 2) (new_Backtester (21 / 10) 1 0))) = 20001"
    using e by (simp_all add: exited_state_def)
  show ?thesis
    using run_csv_file [OF iterate_round_trip [unfolded round_trip_def],
        where th = "5 / 2" and b = "new_Backtester (21 / 10) 1 0"]
    unfolding round_trip_def [symmetric]
    by (simp only: force_close_exited [OF e] f)
qed

lemma run_loop_round_trip:
  "run_loop stod_decimal
     (run_init (new_MarketDataReader (Some round_trip)) (5 / 2) (new_Backtester (21 / 10) 1 0)) =
   Inr ((process_ticks (replicate 19999 tick_calm @ [tick_drop, tick_back])
          (run_init (new_MarketDataReader (Some round_trip)) (5 / 2) (new_Backtester (21 / 10) 1 0)))
        \<lparr>reader := \<lparr>data = Some round_trip, position = length round_trip\<rparr>\<rparr>)"
  by (simp only: run_loop_iterate run_init_reader iterate_round_trip sum.case prod.case)


lemma process_first_tick:
  "backtester (process_tick first_tick (run_init rd th (new_Backtester (21 / 10) 1 u))) = armed_backtester u"
  "tickCount (process_tick first_tick (run_init rd th (new_Backtester (21 / 10) 1 u))) = 1"
  "lastTick (process_tick first_tick (run_init rd th (new_Backtester (21 / 10) 1 u))) = Some first_tick"
proof -
  let ?st0 = "run_init rd th (new_Backtester (21 / 10) 1 u)"
  have "\<not> isReady (update (mid first_tick) (stats ?st0))"
    by (simp add: isReady_def run_init_fields new_RollingStatistics_def)
  then have "generate (mid first_tick) (update (mid first_tick) (stats ?st0)) (signalGen ?st0) =
    (FLAT, signalGen ?st0)" by (rule generate_not_ready)
  then show "backtester (process_tick first_tick ?st0) = armed_backtester u"
    by (simp add: process_tick_fields run_init_backtester updatePosition_def armed_backtester_def)
  show "tickCount (process_tick first_tick ?st0) = 1"
    by (simp add: process_tick_fields run_init_fields)
  show "lastTick (process_tick first_tick ?st0) = Some first_tick"
    by (simp add: process_tick_fields)
qed

lemma run_one_tick:
  "run stod_decimal (Some one_tick) (5 / 2) (new_Backtester (21 / 10) 1 u) =
     Inr (calculateMetrics 1000000 1000000 1 (armed_backtester u), armed_backtester u)"
proof -
  let ?st0 = "run_init (new_MarketDataReader (Some one_tick)) (5 / 2) (new_Backtester (21 / 10) 1 u)"
  have l: "run_loop stod_decimal ?st0 =
      Inr ((process_tick first_tick ?st0)\<lparr>reader := \<lparr>data = Some one_tick, position = 53\<rparr>\<rparr>)"
    by (simp add: run_loop_iterate iterate_one_tick)
  have f: "force_close (process_tick first_tick ?st0) = armed_backtester u"
    by (simp add: force_close_def process_first_tick armed_backtester_def)
  have t: "startTime (process_tick first_tick ?st0) = 1000000"
    "endTime (process_tick first_tick ?st0) = 1000000"
    by (simp_all add: process_tick_fields run_init_fields first_tick_def)
  show ?thesis
    using one_tick_valid
    by (simp add: run_def l f t process_first_tick Let_def)
qed

lemma transitions_one_tick:
  "transitions [first_tick] (run_init rd th (new_Backtester (21 / 10) 1 u)) = []"
  by (simp add: process_first_tick run_init_backtester Let_def)

lemma sorted_round_trip:
  "sorted (map timestamp (replicate 19999 tick_calm @ [tick_drop, tick_back]))"
  by (simp add: sorted_append)

subsection \<open>Backtester: peak equity\<close>

text \<open>
  Inside the loop the peak follows the equity: every \<open>updatePosition\<close> ends by
  raising \<open>peakEquity\<close> to the equity.
\<close>

lemma updatePosition_peak:
  assumes "equity b \<le> peakEquity b"
  shows "equity (updatePosition p ts sig b) \<le> peakEquity (updatePosition p ts sig b)"
  using assms by (auto simp: updatePosition_def Let_def)

lemma peak_ticks:
  assumes "equity (backtester st) \<le> peakEquity (backtester st)"
  shows "equity (backtester (process_ticks ticks st)) \<le> peakEquity (backtester (process_ticks ticks st))"
  using assms
  by (induction ticks arbitrary: st) (simp_all add: process_tick_fields updatePosition_peak)

lemma loop_peak_invariant:
  assumes "run_loop stod (run_init rd th b) = Inr st"
  shows "equity (backtester st) \<le> peakEquity (backtester st)"
proof -
  have 0: "equity (backtester (run_init rd th b)) \<le> peakEquity (backtester (run_init rd th b))"
    by (simp add: run_init_def)
  from assms obtain ticks r' where "st = (process_ticks ticks (run_init rd th b))\<lparr>reader := r'\<rparr>"
    by (auto simp: run_loop_iterate run_init_def split: sum.splits)
  with peak_ticks [OF 0, of ticks] show ?thesis by simp
qed

lemma force_close_above_peak_any_read:
  assumes "u < 2479 / 500"
  shows "run stod_decimal (Some open_at_end) (5 / 2) (new_Backtester (21 / 10) 1 u) =
           Inr (calculateMetrics 1 3 20001 (closed_after_rise u), closed_after_rise u)"
    and "peakEquity (closed_after_rise u) < equity (closed_after_rise u)"
  using assms by (simp_all add: run_open_at_end closed_after_rise_def long_backtester_def)

text \<open>
  Claim C4: \<open>peak_equity \<ge> equity\<close> after every state update during \<open>run\<close>,
  including after the end-of-stream force-close.

  The force-close breaks it. At the end of the stream \<open>run\<close> calls \<open>closePosition\<close>
  directly, which adds the profit to the equity; the peak, the drawdown and the equity
  curve are refreshed by \<open>updatePosition\<close> only. On \<open>open_at_end\<close>, with the
  slippage read as \<open>0\<close>, the long position entered at \<open>50.00\<close> is force-closed at
  \<open>60.00\<close> with the profit \<open>497.90\<close>: the run ends with the equity \<open>100495.80\<close> above
  the peak \<open>100000\<close>, and the equity curve has no point for the close. By
  \<open>force_close_above_peak_any_read\<close> the run ends above the peak for every value of
  the read below \<open>4.958\<close>.
\<close>

theorem run_force_close_above_peak:
  "run stod_decimal (Some open_at_end) (5 / 2) (new_Backtester (21 / 10) 1 0) =
     Inr (calculateMetrics 1 3 20001 (closed_after_rise 0), closed_after_rise 0) \<and>
   trades (closed_after_rise 0) =
     [\<lparr>entryTime = 2, exitTime = 3, entryPrice = 50, exitPrice = 60,
       direction = LONG, pnl = 4979 / 10, duration = 1\<rparr>] \<and>
   peakEquity (closed_after_rise 0) = 100000 \<and> equity (closed_after_rise 0) = 502479 / 5 \<and>
   peakEquity (closed_after_rise 0) < equity (closed_after_rise 0) \<and>
   equityTimestamps (closed_after_rise 0) = [0, 2] \<and>
   equityCurve (closed_after_rise 0) = [100000, 999979 / 10]"
  unfolding run_open_at_end
  by (simp add: closed_after_rise_def long_backtester_def)

subsection \<open>Backtester: the times of a trade\<close>

text \<open>
  Claim C5, as stated: every trade of the log has \<open>entry_time < exit_time\<close>. It
  fails on \<open>entry_on_last_tick\<close>, a stream with non-decreasing timestamps: the position
  opened on the last record is force-closed at that same record, and the trade logged
  has entry time \<open>2\<close>, exit time \<open>2\<close> and duration \<open>0\<close>. (With the slippage read as
  \<open>0\<close> it enters and leaves at \<open>50.00\<close> and loses the commission \<open>2.10\<close>.)
\<close>

theorem force_close_on_entry_tick:
  "run stod_decimal (Some entry_on_last_tick) (5 / 2) (new_Backtester (21 / 10) 1 0) =
     Inr (calculateMetrics 1 2 20000 (closed_on_entry_tick 0), closed_on_entry_tick 0) \<and>
   trades (closed_on_entry_tick 0) =
     [\<lparr>entryTime = 2, exitTime = 2, entryPrice = 50, exitPrice = 50,
       direction = LONG, pnl = - (21 / 10), duration = 0\<rparr>] \<and>
   \<not> entryTime (last (trades (closed_on_entry_tick 0)))
       < exitTime (last (trades (closed_on_entry_tick 0)))"
  unfolding run_entry_on_last_tick by (simp add: closed_on_entry_tick_def)

text \<open>
  The duration of a trade is an \<open>int64_t\<close> difference. It is the exact difference
  when that fits, and wraps around otherwise: a position entered at
  \<open>-9000000000000000000\<close> and closed at \<open>9000000000000000000\<close>, two timestamps that
  \<open>std::stoll\<close> accepts, is logged with a negative duration.
\<close>

lemma sub_int64_exact:
  assumes "- (2 ^ 63) \<le> a - b" and "a - b < 2 ^ 63"
  shows "sub_int64 a b = a - b"
proof -
  have "0 \<le> a - b + 2 ^ 63" and "a - b + 2 ^ 63 < 2 ^ 64" using assms by simp_all
  then have "(a - b + 2 ^ 63) mod 2 ^ 64 = a - b + 2 ^ 63" by (rule mod_pos_pos_trivial)
  then show ?thesis by (simp add: sub_int64_def)
qed

lemma closePosition_duration_wraps:
  assumes "currentPosition b \<noteq> FLAT" and "entryTime_bt b = - 9000000000000000000"
  shows "map duration (trades (closePosition p 9000000000000000000 b)) =
           map duration (trades b) @ [- 446744073709551616]"
  using assms by (simp add: closePosition_fields sub_int64_def)

lemma trade_times_inv_step:
  assumes inv: "trade_times_inv T st"
    and le: "case lastTick st of None \<Rightarrow> True | Some lt \<Rightarrow> timestamp lt \<le> timestamp t"
    and mem: "timestamp t \<in> T"
  shows "trade_times_inv T (process_tick t st)"
proof -
  let ?b = "backtester st"
  let ?sig = "fst (generate (mid t) (update (mid t) (stats st)) (signalGen st))"
  have open_le: "entryTime_bt ?b \<le> timestamp t" "entryTime_bt ?b \<in> T"
    if "currentPosition ?b \<noteq> FLAT"
    using inv le that by (auto simp: trade_times_inv_def split: option.splits)
  show ?thesis
  proof (cases "?sig = currentPosition ?b")
    case True
    then have "backtester (process_tick t st) = ?b"
      by (simp add: process_tick_fields)
    with inv open_le mem show ?thesis
      by (auto simp: trade_times_inv_def process_tick_fields)
  next
    case False
    show ?thesis
    proof (cases "currentPosition ?b = FLAT")
      case True
      with False inv mem show ?thesis
        by (simp add: trade_times_inv_def process_tick_fields updatePosition_fields)
    next
      case nf: False
      with False inv open_le mem show ?thesis
        by (simp add: trade_times_inv_def process_tick_fields updatePosition_fields
            closePosition_fields)
    qed
  qed
qed

lemma trade_times_inv_ticks:
  assumes "trade_times_inv T st"
    and "sorted (map timestamp ticks)"
    and "case lastTick st of None \<Rightarrow> True | Some lt \<Rightarrow> \<forall>t\<in>set ticks. timestamp lt \<le> timestamp t"
    and "timestamp ` set ticks \<subseteq> T"
  shows "trade_times_inv T (process_ticks ticks st)"
  using assms
proof (induction ticks arbitrary: st)
  case Nil
  then show ?case by simp
next
  case (Cons t ticks)
  have 1: "trade_times_inv T (process_tick t st)"
    using Cons.prems by (intro trade_times_inv_step) (auto split: option.splits)
  have 2: "sorted (map timestamp ticks)" using Cons.prems by simp
  have 3: "case lastTick (process_tick t st) of None \<Rightarrow> True
           | Some lt \<Rightarrow> \<forall>u\<in>set ticks. timestamp lt \<le> timestamp u"
    using Cons.prems by (simp add: process_tick_fields)
  have 4: "timestamp ` set ticks \<subseteq> T" using Cons.prems by simp
  show ?case using Cons.IH [OF 1 2 3 4] by simp
qed

lemma trade_times_inv_init: "trade_times_inv T (run_init rd th b)"
  by (simp add: trade_times_inv_def run_init_def)

lemma trade_times_inv_reader [simp]:
  "trade_times_inv T (st\<lparr>reader := r\<rparr>) = trade_times_inv T st"
  by (simp add: trade_times_inv_def split: option.splits)

lemma force_close_trades:
  assumes "trade_times_inv T st"
  shows "list_all (\<lambda>tr. entryTime tr \<le> exitTime tr \<and>
                        duration tr = sub_int64 (exitTime tr) (entryTime tr) \<and>
                        entryTime tr \<in> T \<and> exitTime tr \<in> T)
           (trades (force_close st))"
  using assms
  by (auto simp: trade_times_inv_def force_close_def closePosition_fields split: option.splits)

lemma run_trade_times:
  assumes "run stod file th b = Inr (m, b')"
    and "iterate stod (new_MarketDataReader file) = Inr (ticks, r')"
    and "sorted (map timestamp ticks)"
  shows "list_all (\<lambda>tr. entryTime tr \<le> exitTime tr \<and>
                        duration tr = sub_int64 (exitTime tr) (entryTime tr) \<and>
                        entryTime tr \<in> timestamp ` set ticks \<and>
                        exitTime tr \<in> timestamp ` set ticks)
           (trades b')"
proof -
  let ?st0 = "run_init (new_MarketDataReader file) th b"
  have "trade_times_inv (timestamp ` set ticks) (process_ticks ticks ?st0)"
    by (rule trade_times_inv_ticks [OF trade_times_inv_init assms(3)])
       (simp_all add: run_init_def)
  then have "list_all (\<lambda>tr. entryTime tr \<le> exitTime tr \<and>
                        duration tr = sub_int64 (exitTime tr) (entryTime tr) \<and>
                        entryTime tr \<in> timestamp ` set ticks \<and>
                        exitTime tr \<in> timestamp ` set ticks)
           (trades (force_close (process_ticks ticks ?st0)))"
    by (rule force_close_trades)
  then show ?thesis
    using run_Inr(2) [OF assms(1,2)] by simp
qed

lemma sorted_span:
  assumes "sorted (map timestamp ticks)" and "x \<in> set ticks"
  shows "timestamp (hd ticks) \<le> timestamp x" and "timestamp x \<le> timestamp (last ticks)"
proof -
  from assms(2) obtain i where i: "i < length ticks" "x = ticks ! i"
    by (auto simp: in_set_conv_nth)
  then have ne: "ticks \<noteq> []" by auto
  have "map timestamp ticks ! 0 \<le> map timestamp ticks ! i"
    using assms(1) i(1) by (intro sorted_nth_mono) simp_all
  then show "timestamp (hd ticks) \<le> timestamp x"
    using i ne by (simp add: hd_conv_nth)
  have "map timestamp ticks ! i \<le> map timestamp ticks ! (length ticks - 1)"
    using assms(1) i(1) by (intro sorted_nth_mono) simp_all
  then show "timestamp x \<le> timestamp (last ticks)"
    using i ne by (simp add: last_conv_nth)
qed

lemma run_trade_durations:
  assumes "run stod file th b = Inr (m, b')"
    and "iterate stod (new_MarketDataReader file) = Inr (ticks, r')"
    and "sorted (map timestamp ticks)"
    and "timestamp (last ticks) - timestamp (hd ticks) < 2 ^ 63"
  shows "list_all (\<lambda>tr. duration tr = exitTime tr - entryTime tr \<and> 0 \<le> duration tr) (trades b')"
proof -
  have "duration tr = exitTime tr - entryTime tr \<and> 0 \<le> duration tr"
    if tr: "tr \<in> set (trades b')" for tr
  proof -
    from run_trade_times [OF assms(1-3)] tr
    have le: "entryTime tr \<le> exitTime tr"
      and d: "duration tr = sub_int64 (exitTime tr) (entryTime tr)"
      and en: "entryTime tr \<in> timestamp ` set ticks"
      and ex: "exitTime tr \<in> timestamp ` set ticks"
      by (simp_all add: list_all_iff)
    from en obtain x where x: "x \<in> set ticks" "entryTime tr = timestamp x" by auto
    from ex obtain y where y: "y \<in> set ticks" "exitTime tr = timestamp y" by auto
    have "timestamp (hd ticks) \<le> entryTime tr" "exitTime tr \<le> timestamp (last ticks)"
      using sorted_span [OF assms(3) x(1)] sorted_span [OF assms(3) y(1)] x(2) y(2)
      by simp_all
    with assms(4) have "exitTime tr - entryTime tr < 2 ^ 63" by linarith
    moreover have "- (2 ^ 63) \<le> exitTime tr - entryTime tr" using le by simp
    ultimately have "sub_int64 (exitTime tr) (entryTime tr) = exitTime tr - entryTime tr"
      by (intro sub_int64_exact)
    with d le show ?thesis by simp
  qed
  then show ?thesis unfolding list_all_iff by blast
qed

text \<open>
  The timestamps that the reader delivers have passed the range check of
  \<open>std::stoll\<close>. So a stream without a negative timestamp spans less than \<open>2 ^ 63\<close>,
  and the durations of its trades are exact.
\<close>

lemma stoll_range:
  assumes "stoll s = Inr v"
  shows "- (2 ^ 63) \<le> v" and "v < 2 ^ 63"
  using assms by (auto simp: stoll_def Let_def split: prod.splits if_splits)

lemma parseLine_timestamp_range:
  assumes "parseLine stod l = Inr (Some t)"
  shows "- (2 ^ 63) \<le> timestamp t" and "timestamp t < 2 ^ 63"
  using assms
  by (auto simp: parseLine_def split: option.splits sum.splits prod.splits dest: stoll_range)

lemma next_tick_timestamp_range_aux:
  "(case next_tick stod r of
      Inr (Some t, r') \<Rightarrow> - (2 ^ 63) \<le> timestamp t \<and> timestamp t < 2 ^ 63
    | _ \<Rightarrow> True)"
proof (induction stod r rule: next_tick.induct)
  case (1 stod r)
  show ?case
  proof (cases "data r")
    case None
    then show ?thesis by (simp add: next_tick.simps)
  next
    case (Some d)
    show ?thesis
    proof (cases "length d \<le> position r")
      case True
      with Some show ?thesis by (simp add: next_tick.simps)
    next
      case False
      note IH = "1.IH" [OF Some False refl refl _ refl refl]
      from IH Some False show ?thesis
        unfolding next_tick.simps [of stod r]
        by (auto simp: Let_def split: if_splits sum.splits option.splits prod.splits
            dest: parseLine_timestamp_range)
    qed
  qed
qed

lemma next_tick_timestamp_range:
  assumes "next_tick stod r = Inr (Some t, r')"
  shows "- (2 ^ 63) \<le> timestamp t" and "timestamp t < 2 ^ 63"
  using next_tick_timestamp_range_aux [of stod r] assms by simp_all

lemma iterate_timestamp_range_aux:
  "(case iterate stod r of
      Inr (ticks, r') \<Rightarrow> list_all (\<lambda>t. - (2 ^ 63) \<le> timestamp t \<and> timestamp t < 2 ^ 63) ticks
    | Inl e \<Rightarrow> True)"
proof (induction stod r rule: iterate.induct)
  case (1 stod r)
  show ?case
    using "1.IH" next_tick_timestamp_range [of stod r]
    unfolding iterate.simps [of stod r]
    by (auto split: sum.splits option.splits prod.splits)
qed

lemma iterate_timestamp_range:
  assumes "iterate stod r = Inr (ticks, r')"
  shows "list_all (\<lambda>t. - (2 ^ 63) \<le> timestamp t \<and> timestamp t < 2 ^ 63) ticks"
  using iterate_timestamp_range_aux [of stod r] assms by simp

lemma run_trade_durations_nonnegative_timestamps:
  assumes "run stod file th b = Inr (m, b')"
    and "iterate stod (new_MarketDataReader file) = Inr (ticks, r')"
    and "sorted (map timestamp ticks)"
    and "list_all (\<lambda>t. 0 \<le> timestamp t) ticks"
  shows "list_all (\<lambda>tr. duration tr = exitTime tr - entryTime tr \<and> 0 \<le> duration tr) (trades b')"
proof (cases "ticks = []")
  case True
  with run_trade_times [OF assms(1-3)] show ?thesis
    by (auto simp: list_all_iff)
next
  case False
  then have "hd ticks \<in> set ticks" "last ticks \<in> set ticks" by simp_all
  then have "0 \<le> timestamp (hd ticks)" "timestamp (last ticks) < 2 ^ 63"
    using assms(4) iterate_timestamp_range [OF assms(2)] by (auto simp: list_all_iff)
  then have "timestamp (last ticks) - timestamp (hd ticks) < 2 ^ 63" by linarith
  then show ?thesis by (rule run_trade_durations [OF assms(1-3)])
qed

text \<open>
  Claim C5, amended: when the timestamps of the ticks delivered by the reader are
  non-decreasing, every trade of the log of a completed run, the trade of the
  end-of-stream force-close included, has \<open>entry_time \<le> exit_time\<close>, and its duration
  is the \<open>int64_t\<close> difference \<open>exit_time - entry_time\<close>; when in addition the last
  timestamp exceeds the first by less than \<open>2 ^ 63\<close>, as it does in every stream
  without a negative timestamp, that difference does not overflow, and the duration
  is exactly \<open>exit_time - entry_time\<close> and is not negative.
\<close>

theorem trade_times_ordered:
  assumes "run stod file th b = Inr (m, b')"
    and "iterate stod (new_MarketDataReader file) = Inr (ticks, r')"
    and "sorted (map timestamp ticks)"
  shows "list_all (\<lambda>tr. entryTime tr \<le> exitTime tr \<and>
                        duration tr = sub_int64 (exitTime tr) (entryTime tr)) (trades b') \<and>
         (timestamp (last ticks) - timestamp (hd ticks) < 2 ^ 63 \<longrightarrow>
          list_all (\<lambda>tr. duration tr = exitTime tr - entryTime tr \<and> 0 \<le> duration tr)
            (trades b'))"
proof -
  have "list_all (\<lambda>tr. entryTime tr \<le> exitTime tr \<and>
                        duration tr = sub_int64 (exitTime tr) (entryTime tr)) (trades b')"
    using run_trade_times [OF assms] by (simp add: list_all_iff)
  with run_trade_durations [OF assms] show ?thesis by blast
qed

theorem trade_times_ordered_witness:
  "sorted (map timestamp (replicate 19999 tick_calm @ [tick_drop, tick_back])) \<and>
   timestamp (last (replicate 19999 tick_calm @ [tick_drop, tick_back]))
     - timestamp (hd (replicate 19999 tick_calm @ [tick_drop, tick_back])) < 2 ^ 63 \<and>
   trades closed_in_loop =
     [\<lparr>entryTime = 2, exitTime = 3, entryPrice = 50, exitPrice = 100,
       direction = LONG, pnl = 24979 / 10, duration = 1\<rparr>] \<and>
   list_all (\<lambda>tr. entryTime tr \<le> exitTime tr \<and>
                  duration tr = sub_int64 (exitTime tr) (entryTime tr)) (trades closed_in_loop) \<and>
   list_all (\<lambda>tr. duration tr = exitTime tr - entryTime tr \<and> 0 \<le> duration tr)
     (trades closed_in_loop)"
proof -
  have span: "timestamp (last (replicate 19999 tick_calm @ [tick_drop, tick_back]))
     - timestamp (hd (replicate 19999 tick_calm @ [tick_drop, tick_back])) < 2 ^ 63"
    by (simp add: hd_append tick_calm_def tick_back_def)
  show ?thesis
    using trade_times_ordered [OF run_round_trip iterate_round_trip sorted_round_trip]
      sorted_round_trip span
    by (simp add: closed_in_loop_def)
qed

subsection \<open>Backtester: the equity curve\<close>

text \<open>
  Claim C6, as stated: the equity curve holds exactly one point per position
  transition, stamped with the timestamp of the tick of the transition. It fails on
  \<open>one_tick\<close>: the position never changes, and the curve holds the point
  \<open>(0, 100000)\<close> that \<open>run\<close> stores before it reads the first tick.
\<close>

theorem equity_curve_seed_point:
  "run stod_decimal (Some one_tick) (5 / 2) (new_Backtester (21 / 10) 1 0) =
     Inr (calculateMetrics 1000000 1000000 1 (armed_backtester 0), armed_backtester 0) \<and>
   iterate stod_decimal (new_MarketDataReader (Some one_tick)) =
     Inr ([first_tick], \<lparr>data = Some one_tick, position = 53\<rparr>) \<and>
   transitions [first_tick]
     (run_init (new_MarketDataReader (Some one_tick)) (5 / 2) (new_Backtester (21 / 10) 1 0)) = [] \<and>
   equityTimestamps (armed_backtester 0) = [0] \<and> equityCurve (armed_backtester 0) = [100000]"
  unfolding run_one_tick iterate_one_tick transitions_one_tick
  by (simp add: armed_backtester_def)

lemma process_tick_position_changes:
  "currentPosition (backtester (process_tick t st)) \<noteq> currentPosition (backtester st) \<longleftrightarrow>
   fst (generate (mid t) (update (mid t) (stats st)) (signalGen st)) \<noteq> currentPosition (backtester st)"
  by (simp add: process_tick_fields updatePosition_fields)

lemma equity_points_ticks:
  assumes "length (equityTimestamps (backtester st)) = length (equityCurve (backtester st))"
  shows "zip (equityTimestamps (backtester (process_ticks ticks st)))
             (equityCurve (backtester (process_ticks ticks st))) =
           zip (equityTimestamps (backtester st)) (equityCurve (backtester st)) @
           transitions ticks st \<and>
         length (equityTimestamps (backtester (process_ticks ticks st))) =
           length (equityCurve (backtester (process_ticks ticks st)))"
  using assms
proof (induction ticks arbitrary: st)
  case Nil
  then show ?case by simp
next
  case (Cons t ticks)
  let ?st' = "process_tick t st"
  let ?sig = "fst (generate (mid t) (update (mid t) (stats st)) (signalGen st))"
  have len: "length (equityTimestamps (backtester ?st')) = length (equityCurve (backtester ?st'))"
    using Cons.prems by (simp add: process_tick_fields updatePosition_fields)
  have step: "zip (equityTimestamps (backtester ?st')) (equityCurve (backtester ?st')) =
      zip (equityTimestamps (backtester st)) (equityCurve (backtester st)) @
      (if currentPosition (backtester ?st') \<noteq> currentPosition (backtester st)
       then [(timestamp t, equity (backtester ?st'))] else [])"
    using Cons.prems
    by (simp add: process_tick_position_changes)
       (simp add: process_tick_fields updatePosition_fields)
  show ?case
    using Cons.IH [OF len] step by (simp add: Let_def)
qed

text \<open>
  Claim C6, amended: when the loop of \<open>run\<close> ends, the equity curve is the seed point
  \<open>(0, 100000)\<close> followed by exactly one point for every tick at which the loop changed
  the position, in order, each with the timestamp of that tick and the equity after
  it; a tick that leaves the position as it is adds no point.
\<close>

theorem equity_curve_points:
  assumes "run_loop stod (run_init (new_MarketDataReader file) th b) = Inr st"
    and "iterate stod (new_MarketDataReader file) = Inr (ticks, r')"
  shows "zip (equityTimestamps (backtester st)) (equityCurve (backtester st)) =
           (0, 100000) # transitions ticks (run_init (new_MarketDataReader file) th b) \<and>
         length (equityTimestamps (backtester st)) = length (equityCurve (backtester st))"
proof -
  let ?st0 = "run_init (new_MarketDataReader file) th b"
  have st: "st = (process_ticks ticks ?st0)\<lparr>reader := r'\<rparr>"
    using assms by (simp add: run_loop_iterate run_init_def)
  have 0: "length (equityTimestamps (backtester ?st0)) = length (equityCurve (backtester ?st0))"
    by (simp add: run_init_def)
  show ?thesis
    using equity_points_ticks [OF 0, of ticks] unfolding st
    by (simp add: run_init_def)
qed

theorem equity_curve_points_witness:
  "transitions (replicate 19999 tick_calm @ [tick_drop, tick_back])
     (run_init (new_MarketDataReader (Some round_trip)) (5 / 2) (new_Backtester (21 / 10) 1 0)) =
     [(2, 999979 / 10), (3, 512479 / 5)] \<and>
   zip (equityTimestamps closed_in_loop) (equityCurve closed_in_loop) =
     [(0, 100000), (2, 999979 / 10), (3, 512479 / 5)]"
proof -
  have b: "backtester (process_ticks (replicate 19999 tick_calm @ [tick_drop, tick_back])
          (run_init (new_MarketDataReader (Some round_trip)) (5 / 2) (new_Backtester (21 / 10) 1 0))) =
     closed_in_loop"
    using exited_after_back [of "new_MarketDataReader (Some round_trip)"]
    by (simp add: exited_state_def)
  have z: "zip (equityTimestamps closed_in_loop) (equityCurve closed_in_loop) =
     [(0, 100000), (2, 999979 / 10), (3, 512479 / 5)]"
    by (simp add: closed_in_loop_def)
  show ?thesis
    using equity_curve_points [OF run_loop_round_trip iterate_round_trip] z
    by (simp add: b)
qed

subsection \<open>Backtester: the Sharpe ratio\<close>




end
